theory Spec2Isabelle
  imports Main
begin

section \<open>The command package of the agent: configuration, start-up and shutdown\<close>

text \<open>
  The development embeds \<^verbatim>\<open>src/cmd/agent.go\<close>: the functions \<^verbatim>\<open>loadConfig\<close>,
  \<^verbatim>\<open>serve\<close> and \<^verbatim>\<open>New\<close>. Everything the file imports (the flag library, the file system,
  the TOML decoder, the \<^verbatim>\<open>server\<close> package) is outside of it and is taken as a parameter,
  collected in the record \<open>Env\<close>; each function returns, next to its result, the list of
  the calls it made to these collaborators, in program order.
\<close>

subsection \<open>The flag store (\<^verbatim>\<open>*cli.Context\<close>)\<close>

text \<open>
  A context holds the flag set of the application: a flag that is defined has a current
  string value. \<^verbatim>\<open>c.String(name)\<close> is the value of a defined flag and the empty string
  otherwise; at the level of the application (no parent context) \<^verbatim>\<open>c.GlobalString\<close>
  reads the same flag set. \<^verbatim>\<open>c.Set(name, value)\<close> overwrites a defined flag; on a flag
  that is not defined it returns an error, which \<^verbatim>\<open>loadConfig\<close> drops, and changes
  nothing.
\<close>

type_synonym Context = "string \<rightharpoonup> string"

definition Context_String :: "Context \<Rightarrow> string \<Rightarrow> string" where
  "Context_String c name = (case c name of None \<Rightarrow> [] | Some v \<Rightarrow> v)"

definition Context_GlobalString :: "Context \<Rightarrow> string \<Rightarrow> string" where
  "Context_GlobalString c name = (case c name of None \<Rightarrow> [] | Some v \<Rightarrow> v)"

definition Context_Set :: "Context \<Rightarrow> string \<Rightarrow> string \<Rightarrow> Context" where
  "Context_Set c name v = (case c name of None \<Rightarrow> c | Some _ \<Rightarrow> c(name \<mapsto> v))"

subsection \<open>Error values\<close>

text \<open>
  The errors are kept as the code builds them, not rendered:
  \<^verbatim>\<open>cli.NewExitError(fmt.Errorf(color.RedString(format, args...)), code)\<close> is
  \<open>NewExitError (OfError (Errorf (RedString format args))) code\<close>, and
  \<^verbatim>\<open>cli.NewExitError(err.Error(), code)\<close> is \<open>NewExitError (OfString text) code\<close>.
\<close>

datatype colored = RedString string "string list"

datatype go_error = Errorf colored

datatype message = OfError go_error | OfString string

datatype ExitError = NewExitError message int

fun ExitCode :: "ExitError \<Rightarrow> int" where
  "ExitCode (NewExitError m code) = code"

subsection \<open>The collaborators\<close>

text \<open>
  \<open>'f\<close> is an open file, \<open>'o\<close> a \<^verbatim>\<open>server.OptionFn\<close>, \<open>'a\<close> the agent that
  \<^verbatim>\<open>server.New\<close> returns. A call that can fail returns \<open>Inl\<close> with the text of the error.
  \<open>toml_document\<close> is what reading the open file and decoding it into the struct of
  \<^verbatim>\<open>loadConfig\<close> gives: an error (the file cannot be read, is not a TOML document, or gives
  to a field a value that is not a string), or the top-level keys of the document that hold
  a string, each with its value, in the order in which the decoder visits them (the keys
  are held in a Go map, so the file does not fix the order). \<open>srvr_Run\<close> is the blocking call:
  \<open>None\<close> when it never returns, \<open>Some r\<close> when it returns, \<open>r\<close> being the error value
  it may produce.
\<close>

record ('f, 'o, 'a) Env =
  os_Open :: "string \<Rightarrow> string + 'f"
  toml_document :: "'f \<Rightarrow> string + (string \<times> string) list"
  server_WithServer :: "string \<Rightarrow> 'o"
  server_WithKey :: "string \<Rightarrow> 'o"
  server_WithName :: "string \<Rightarrow> 'o"
  server_WithDataDir :: "string \<Rightarrow> string + 'o"
  server_WithToken :: "'o"
  server_New :: "'o list \<Rightarrow> string + 'a"
  srvr_Run :: "'a \<Rightarrow> string option option"

datatype 'o call =
    Call_os_Open string
  | Call_DecodeReader
  | Call_Close
  | Call_WithServer string
  | Call_WithKey string
  | Call_WithName string
  | Call_WithDataDir string
  | Call_WithToken
  | Call_server_New "'o list"
  | Call_WithCancel
  | Call_go_listener
  | Call_Run

subsection \<open>\<^verbatim>\<open>loadConfig\<close>\<close>

text \<open>
  The anonymous struct of \<^verbatim>\<open>loadConfig\<close> with its four tagged fields. It starts as the
  zero value.
\<close>

record config =
  Server :: string
  RemoteKey :: string
  DataDir :: string
  Name :: string

definition config_zero :: config where
  "config_zero = \<lparr>Server = [], RemoteKey = [], DataDir = [], Name = []\<rparr>"

text \<open>
  \<^verbatim>\<open>toml.DecodeReader\<close> on a struct: for each key of the document the decoder looks for the
  field to store it in, going through the fields in their order: a field whose tag is the
  key is taken at once; otherwise the first field whose tag equals the key under
  \<^verbatim>\<open>strings.EqualFold\<close> is taken. A key with no field is skipped, and a field with no key
  keeps the value it has.

  \<open>EqualFold s t\<close> is \<^verbatim>\<open>strings.EqualFold\<close> for an \<open>s\<close> of ASCII characters, as the tags
  are, and a \<open>t\<close> of bytes in UTF-8: two ASCII characters are equal under folding when they
  are the same or the upper and lower case of one letter; the only other characters that
  fold to an ASCII one are the Kelvin sign (bytes E2 84 AA) for \<open>k\<close> and the long s
  (bytes C5 BF) for \<open>s\<close>.
\<close>

definition ascii_case_pair :: "char \<Rightarrow> char \<Rightarrow> bool" where
  "ascii_case_pair a b =
     (let lo = min (of_char a) (of_char b) :: nat; hi = max (of_char a) (of_char b)
      in 65 \<le> lo \<and> lo \<le> 90 \<and> hi = lo + 32)"

fun EqualFold :: "string \<Rightarrow> string \<Rightarrow> bool" where
  "EqualFold [] t = (t = [])"
| "EqualFold (sr # s) [] = False"
| "EqualFold (sr # s) (tr # t) =
     (if (of_char tr :: nat) < 128 then (tr = sr \<or> ascii_case_pair sr tr) \<and> EqualFold s t
      else if (sr = CHR ''k'' \<or> sr = CHR ''K'') \<and> tr = CHR 0xE2 \<and>
              take 2 t = [CHR 0x84, CHR 0xAA] then EqualFold s (drop 2 t)
      else if (sr = CHR ''s'' \<or> sr = CHR ''S'') \<and> tr = CHR 0xC5 \<and>
              take 1 t = [CHR 0xBF] then EqualFold s (drop 1 t)
      else False)"

datatype config_field = Field_Server | Field_RemoteKey | Field_DataDir | Field_Name

definition config_fields :: "(string \<times> config_field) list" where
  "config_fields =
     [(''server'', Field_Server), (''remote-key'', Field_RemoteKey),
      (''data-dir'', Field_DataDir), (''name'', Field_Name)]"

fun find_field :: "(string \<times> 'x) list \<Rightarrow> string \<Rightarrow> 'x option \<Rightarrow> 'x option" where
  "find_field [] key f = f"
| "find_field ((name, ff) # rest) key f =
     (if name = key then Some ff
      else if f = None \<and> EqualFold name key then find_field rest key (Some ff)
      else find_field rest key f)"

fun set_field :: "config_field \<Rightarrow> string \<Rightarrow> config \<Rightarrow> config" where
  "set_field Field_Server datum cfg = cfg\<lparr>Server := datum\<rparr>"
| "set_field Field_RemoteKey datum cfg = cfg\<lparr>RemoteKey := datum\<rparr>"
| "set_field Field_DataDir datum cfg = cfg\<lparr>DataDir := datum\<rparr>"
| "set_field Field_Name datum cfg = cfg\<lparr>Name := datum\<rparr>"

fun unifyStruct :: "(string \<times> string) list \<Rightarrow> config \<Rightarrow> config" where
  "unifyStruct [] cfg = cfg"
| "unifyStruct ((key, datum) # tmap) cfg =
     unifyStruct tmap
       (case find_field config_fields key None of
          None \<Rightarrow> cfg
        | Some f \<Rightarrow> set_field f datum cfg)"

definition toml_DecodeReader ::
  "('f, 'o, 'a) Env \<Rightarrow> 'f \<Rightarrow> config \<Rightarrow> string + config" where
  "toml_DecodeReader E r cfg =
     (case toml_document E r of
        Inl err \<Rightarrow> Inl err
      | Inr tmap \<Rightarrow> Inr (unifyStruct tmap cfg))"

text \<open>
  The value that a document gives to a setting, in the words of the specification ``the
  file's value'': the value of the key that stands for the setting, the last one visited
  when the document spells it in several ways; \<open>None\<close> when the setting is absent from the
  document.
\<close>

definition document_value :: "(string \<times> string) list \<Rightarrow> string \<Rightarrow> string option" where
  "document_value doc name =
     map_option snd (find (\<lambda>(key, datum). EqualFold name key) (rev doc))"

text \<open>
  The result is the calls made, the returned error (\<open>None\<close> is \<^verbatim>\<open>nil\<close>) and the context
  after the call, which \<^verbatim>\<open>loadConfig\<close> mutates in place.
\<close>

definition loadConfig ::
  "('f, 'o, 'a) Env \<Rightarrow> Context \<Rightarrow> 'o call list \<times> ExitError option \<times> Context" where
  "loadConfig E c =
     (let s = Context_String c ''config'' in
      if s = [] then ([], None, c)
      else
        case os_Open E s of
          Inl err \<Rightarrow>
            ([Call_os_Open s],
             Some (NewExitError (OfError (Errorf
               (RedString ''Could not open config file: %s'' [err]))) 1),
             c)
        | Inr r \<Rightarrow>
            (case toml_DecodeReader E r config_zero of
               Inl err \<Rightarrow>
                 ([Call_os_Open s, Call_DecodeReader, Call_Close],
                  Some (NewExitError (OfError (Errorf
                    (RedString ''Could not parse config file: %s'' [err]))) 1),
                  c)
             | Inr config \<Rightarrow>
                 (let c1 = Context_Set c ''server'' (Server config);
                      c2 = Context_Set c1 ''remote-key'' (RemoteKey config);
                      c3 = Context_Set c2 ''data'' (DataDir config);
                      c4 = Context_Set c3 ''name'' (Name config)
                  in ([Call_os_Open s, Call_DecodeReader, Call_Close], None, c4))))"

subsection \<open>\<^verbatim>\<open>serve\<close>\<close>

text \<open>
  \<^verbatim>\<open>serve\<close> either returns (an error, or \<^verbatim>\<open>nil\<close>) or stays in the blocking call for ever.
\<close>

datatype outcome = Returns "ExitError option" | Blocks

definition serve :: "('f, 'o, 'a) Env \<Rightarrow> Context \<Rightarrow> 'o call list \<times> outcome" where
  "serve E c =
     (let options = [];
          v = Context_GlobalString c ''server'' in
      if v = [] then
        ([], Returns (Some (NewExitError (OfError (Errorf
               (RedString ''No target server set.'' []))) 1)))
      else
      let options = options @ [server_WithServer E v];
          t = [Call_WithServer v];
          key = Context_GlobalString c ''remote-key'' in
      if key = [] then
        (t, Returns (Some (NewExitError (OfError (Errorf
               (RedString ''No remote key set.'' []))) 1)))
      else
      let options = options @ [server_WithKey E key];
          t = t @ [Call_WithKey key];
          name = Context_GlobalString c ''name'' in
      if name = [] then
        (t, Returns (Some (NewExitError (OfError (Errorf
               (RedString ''No name set.'' []))) 1)))
      else
      let options = options @ [server_WithName E name];
          t = t @ [Call_WithName name];
          d = Context_String c ''data'' in
      if d = [] then
        (t, Returns (Some (NewExitError (OfError (Errorf
               (RedString ''No data dir set.'' []))) 1)))
      else
        case server_WithDataDir E d of
          Inl err \<Rightarrow>
            (t @ [Call_WithDataDir d], Returns (Some (NewExitError (OfString err) 1)))
        | Inr fn \<Rightarrow>
            (let options = options @ [fn];
                 options = options @ [server_WithToken E];
                 t = t @ [Call_WithDataDir d, Call_WithToken, Call_server_New options] in
             case server_New E options of
               Inl err \<Rightarrow> (t, Returns (Some (NewExitError (OfString err) 1)))
             | Inr srvr \<Rightarrow>
                 (let t = t @ [Call_WithCancel, Call_go_listener, Call_Run] in
                  case srvr_Run E srvr of
                    None \<Rightarrow> (t, Blocks)
                  | Some r \<Rightarrow> (t, Returns None))))"

subsection \<open>\<^verbatim>\<open>New\<close>: the flags, and running the application\<close>

text \<open>
  The string flags that \<^verbatim>\<open>New\<close> declares: the names of each (\<^verbatim>\<open>"config, f"\<close> is the two
  names \<^verbatim>\<open>config\<close> and \<^verbatim>\<open>f\<close>) and the default of its \<^verbatim>\<open>Value\<close> field (the empty string
  where the field is not set). The flag set has one entry for every name.
\<close>

definition New_Flags :: "(string list \<times> string) list" where
  "New_Flags =
     [([''config'', ''f''], []),
      ([''server'', ''s''], []),
      ([''remote-key'', ''k''], []),
      ([''data'', ''d''], ''~/.honeytrap-agent''),
      ([''name'', ''n''], [])]"

definition flagSet :: Context where
  "flagSet = map_of (concat (map (\<lambda>(parts, v). map (\<lambda>name. (name, v)) parts) New_Flags))"

text \<open>
  The command line, as the flag library reads it before \<^verbatim>\<open>loadConfig\<close> runs. It is given
  as the list of its flag settings \<open>(name, value)\<close>, in order. First each setting is stored
  under the name it uses, a later one replacing an earlier one; a name that is not
  declared is an error. Then, for each flag with several names, the value of the one name
  that was used is copied to the names that were not; using two names of one flag is an
  error. On an error (\<open>None\<close>) the application ends before \<^verbatim>\<open>loadConfig\<close> runs.
\<close>

fun flag_Parse :: "Context \<Rightarrow> (string \<times> string) list \<Rightarrow> Context option" where
  "flag_Parse c [] = Some c"
| "flag_Parse c ((name, v) # args) =
     (case c name of None \<Rightarrow> None | Some _ \<Rightarrow> flag_Parse (c(name \<mapsto> v)) args)"

definition normalizeFlag :: "string list \<Rightarrow> string list \<Rightarrow> Context \<Rightarrow> Context option" where
  "normalizeFlag parts visited c =
     (if length parts = 1 then Some c
      else
        case filter (\<lambda>name. name \<in> set visited) parts of
          [] \<Rightarrow> Some c
        | [ff] \<Rightarrow>
            Some (fold (\<lambda>name c'. if name \<in> set visited then c'
                                  else Context_Set c' name (Context_String c' ff)) parts c)
        | _ \<Rightarrow> None)"

fun normalizeFlags ::
  "(string list \<times> string) list \<Rightarrow> string list \<Rightarrow> Context \<Rightarrow> Context option" where
  "normalizeFlags [] visited c = Some c"
| "normalizeFlags ((parts, v) # flags) visited c =
     (case normalizeFlag parts visited c of
        None \<Rightarrow> None
      | Some c' \<Rightarrow> normalizeFlags flags visited c')"

definition parse_flags :: "(string \<times> string) list \<Rightarrow> Context option" where
  "parse_flags args =
     (case flag_Parse flagSet args of
        None \<Rightarrow> None
      | Some c \<Rightarrow> normalizeFlags New_Flags (map fst args) c)"

text \<open>
  \<^verbatim>\<open>New\<close> installs \<^verbatim>\<open>loadConfig\<close> as \<^verbatim>\<open>app.Before\<close> and \<^verbatim>\<open>serve\<close> as \<^verbatim>\<open>app.Action\<close>. The
  library runs \<^verbatim>\<open>Before\<close> on the context; when it returns an error the action is not run
  and the error is the application's; otherwise the action runs on the same context.
\<close>

definition app_Run :: "('f, 'o, 'a) Env \<Rightarrow> Context \<Rightarrow> 'o call list \<times> outcome" where
  "app_Run E c =
     (case loadConfig E c of
        (t, Some beforeErr, c') \<Rightarrow> (t, Returns (Some beforeErr))
      | (t, None, c') \<Rightarrow> (case serve E c' of (t', out) \<Rightarrow> (t @ t', out)))"

text \<open>
  Modelled from the spec: the entry point of the program, which is not part of
  \<^verbatim>\<open>src/cmd/agent.go\<close>. The process ends with status 0 when the application returns
  without an error and with the exit code of the error otherwise; it has no exit status
  while the blocking call has not returned.
\<close>

definition exit_status :: "outcome \<Rightarrow> int option" where
  "exit_status out =
     (case out of
        Blocks \<Rightarrow> None
      | Returns None \<Rightarrow> Some 0
      | Returns (Some e) \<Rightarrow> Some (ExitCode e))"

subsection \<open>The signal listener of \<^verbatim>\<open>serve\<close>\<close>

text \<open>
  The goroutine of \<^verbatim>\<open>serve\<close> as a transition system. The listener is at one of its four
  statements or has returned. \<open>notified\<close> are the signals that \<^verbatim>\<open>signal.Notify\<close> has
  registered for the channel \<open>s\<close>, whose buffer holds one signal. A signal that is
  registered is sent to the channel without blocking (it is dropped when the buffer is
  full); one that is not registered has its default disposition, which ends the process.
  \<^verbatim>\<open>cancel()\<close> marks the context cancelled; the number of calls is counted.
\<close>

datatype Signal = Interrupt | SIGTERM

datatype listener_pc = At_make | At_Notify_Interrupt | At_Notify_SIGTERM | At_select | Exited

record process =
  listener :: listener_pc
  notified :: "Signal list"
  chan_s :: "Signal list"
  ctx_cancelled :: bool
  cancel_calls :: nat
  alive :: bool

definition process_start :: process where
  "process_start =
     \<lparr>listener = At_make, notified = [], chan_s = [], ctx_cancelled = False,
      cancel_calls = 0, alive = True\<rparr>"

definition cancel :: "process \<Rightarrow> process" where
  "cancel p = p\<lparr>ctx_cancelled := True, cancel_calls := Suc (cancel_calls p)\<rparr>"

definition listener_step :: "process \<Rightarrow> process" where
  "listener_step p =
     (case listener p of
        At_make \<Rightarrow> p\<lparr>chan_s := [], listener := At_Notify_Interrupt\<rparr>
      | At_Notify_Interrupt \<Rightarrow>
          p\<lparr>notified := Interrupt # notified p, listener := At_Notify_SIGTERM\<rparr>
      | At_Notify_SIGTERM \<Rightarrow>
          p\<lparr>notified := SIGTERM # notified p, listener := At_select\<rparr>
      | At_select \<Rightarrow>
          (case chan_s p of
             [] \<Rightarrow> p
           | sig # rest \<Rightarrow> (cancel (p\<lparr>chan_s := rest\<rparr>))\<lparr>listener := Exited\<rparr>)
      | Exited \<Rightarrow> p)"

definition deliver :: "Signal \<Rightarrow> process \<Rightarrow> process" where
  "deliver sig p =
     (if sig \<in> set (notified p) then
        (if length (chan_s p) < 1 then p\<lparr>chan_s := chan_s p @ [sig]\<rparr> else p)
      else p\<lparr>alive := False\<rparr>)"

datatype event = Deliver Signal | Listener_runs

definition step :: "event \<Rightarrow> process \<Rightarrow> process" where
  "step ev p =
     (if alive p then
        (case ev of Deliver sig \<Rightarrow> deliver sig p | Listener_runs \<Rightarrow> listener_step p)
      else p)"

fun run_events :: "event list \<Rightarrow> process \<Rightarrow> process" where
  "run_events [] p = p"
| "run_events (ev # evs) p = run_events evs (step ev p)"

subsection \<open>A stub environment\<close>

text \<open>
  A small file system and a collaborator that records the options it is given, to run
  the functions on concrete inputs. An option is the pair of its kind and its value, the
  agent is the list of options it was built from.
\<close>

definition stub_Env :: "(string, string \<times> string, (string \<times> string) list) Env" where
  "stub_Env =
     \<lparr>os_Open = (\<lambda>path.
        if path = ''agent.toml'' then Inr ''full''
        else if path = ''partial.toml'' then Inr ''partial''
        else if path = ''nodata.toml'' then Inr ''nodata''
        else if path = ''capitals.toml'' then Inr ''capitals''
        else if path = ''broken.toml'' then Inr ''broken''
        else Inl ''no such file or directory''),
      toml_document = (\<lambda>r.
        if r = ''full'' then
          Inr [(''server'', ''a''), (''remote-key'', ''b''), (''data-dir'', ''d''),
               (''name'', ''c'')]
        else if r = ''partial'' then Inr [(''server'', ''a'')]
        else if r = ''nodata'' then
          Inr [(''server'', ''a''), (''remote-key'', ''b''), (''name'', ''c'')]
        else if r = ''capitals'' then Inr [(''Server'', ''x''), (''Data-Dir'', ''w'')]
        else Inl ''expected key separator''),
      server_WithServer = (\<lambda>v. (''server'', v)),
      server_WithKey = (\<lambda>v. (''key'', v)),
      server_WithName = (\<lambda>v. (''name'', v)),
      server_WithDataDir = (\<lambda>d.
        if d = ''/proc/agent'' then Inl ''permission denied'' else Inr (''data-dir'', d)),
      server_WithToken = (''token'', []),
      server_New = (\<lambda>options. Inr options),
      srvr_Run = (\<lambda>srvr. Some (Some ''context canceled''))\<rparr>"

section \<open>Properties\<close>

subsection \<open>Auxiliary facts\<close>

lemmas store_defs = Context_String_def Context_GlobalString_def Context_Set_def

text \<open>The tags of the four fields begin with four different letters.\<close>

lemma EqualFold_server_head:
  "EqualFold ''server'' key \<Longrightarrow> key \<noteq> [] \<and> (of_char (hd key) :: nat) \<in> {115, 83, 197}"
  by (cases key) (auto simp: ascii_case_pair_def Let_def min_def max_def split: if_splits)

lemma EqualFold_remote_key_head:
  "EqualFold ''remote-key'' key \<Longrightarrow> key \<noteq> [] \<and> (of_char (hd key) :: nat) \<in> {114, 82}"
  by (cases key) (auto simp: ascii_case_pair_def Let_def min_def max_def split: if_splits)

lemma EqualFold_data_dir_head:
  "EqualFold ''data-dir'' key \<Longrightarrow> key \<noteq> [] \<and> (of_char (hd key) :: nat) \<in> {100, 68}"
  by (cases key) (auto simp: ascii_case_pair_def Let_def min_def max_def split: if_splits)

lemma EqualFold_name_head:
  "EqualFold ''name'' key \<Longrightarrow> key \<noteq> [] \<and> (of_char (hd key) :: nat) \<in> {110, 78}"
  by (cases key) (auto simp: ascii_case_pair_def Let_def min_def max_def split: if_splits)

lemma EqualFold_tags_refl:
  "EqualFold ''server'' ''server''" "EqualFold ''remote-key'' ''remote-key''"
  "EqualFold ''data-dir'' ''data-dir''" "EqualFold ''name'' ''name''"
  by simp_all

lemma EqualFold_tags_disjoint:
  "EqualFold ''server'' key \<Longrightarrow>
     \<not> EqualFold ''remote-key'' key \<and> \<not> EqualFold ''data-dir'' key \<and> \<not> EqualFold ''name'' key"
  "EqualFold ''remote-key'' key \<Longrightarrow>
     \<not> EqualFold ''data-dir'' key \<and> \<not> EqualFold ''name'' key"
  "EqualFold ''data-dir'' key \<Longrightarrow> \<not> EqualFold ''name'' key"
proof -
  note h = EqualFold_server_head [of key] EqualFold_remote_key_head [of key]
    EqualFold_data_dir_head [of key] EqualFold_name_head [of key]
  show "EqualFold ''server'' key \<Longrightarrow>
     \<not> EqualFold ''remote-key'' key \<and> \<not> EqualFold ''data-dir'' key \<and> \<not> EqualFold ''name'' key"
    using h by (auto simp del: EqualFold.simps)
  show "EqualFold ''remote-key'' key \<Longrightarrow>
     \<not> EqualFold ''data-dir'' key \<and> \<not> EqualFold ''name'' key"
    using h by (auto simp del: EqualFold.simps)
  show "EqualFold ''data-dir'' key \<Longrightarrow> \<not> EqualFold ''name'' key"
    using h by (auto simp del: EqualFold.simps)
qed

lemma find_field_config:
  "find_field config_fields key None =
     (if EqualFold ''server'' key then Some Field_Server
      else if EqualFold ''remote-key'' key then Some Field_RemoteKey
      else if EqualFold ''data-dir'' key then Some Field_DataDir
      else if EqualFold ''name'' key then Some Field_Name
      else None)"
proof -
  have e: "\<not> EqualFold ''server'' key \<Longrightarrow> ''server'' \<noteq> key"
    "\<not> EqualFold ''remote-key'' key \<Longrightarrow> ''remote-key'' \<noteq> key"
    "\<not> EqualFold ''data-dir'' key \<Longrightarrow> ''data-dir'' \<noteq> key"
    "\<not> EqualFold ''name'' key \<Longrightarrow> ''name'' \<noteq> key"
    using EqualFold_tags_refl by blast+
  consider (s) "EqualFold ''server'' key"
    | (r) "\<not> EqualFold ''server'' key" "EqualFold ''remote-key'' key"
    | (d) "\<not> EqualFold ''server'' key" "\<not> EqualFold ''remote-key'' key"
        "EqualFold ''data-dir'' key"
    | (n) "\<not> EqualFold ''server'' key" "\<not> EqualFold ''remote-key'' key"
        "\<not> EqualFold ''data-dir'' key"
    by blast
  then show ?thesis
  proof cases
    case s
    from EqualFold_tags_disjoint(1) [OF s]
    have o: "\<not> EqualFold ''remote-key'' key" "\<not> EqualFold ''data-dir'' key"
      "\<not> EqualFold ''name'' key" by blast+
    show ?thesis
      by (simp add: config_fields_def s o e(2) [OF o(1)] e(3) [OF o(2)] e(4) [OF o(3)]
          del: EqualFold.simps)
  next
    case r
    from EqualFold_tags_disjoint(2) [OF r(2)]
    have o: "\<not> EqualFold ''data-dir'' key" "\<not> EqualFold ''name'' key" by blast+
    show ?thesis
      by (simp add: config_fields_def r o e(1) [OF r(1)] e(3) [OF o(1)] e(4) [OF o(2)]
          del: EqualFold.simps)
  next
    case d
    from EqualFold_tags_disjoint(3) [OF d(3)]
    have o: "\<not> EqualFold ''name'' key" by blast
    show ?thesis
      by (simp add: config_fields_def d o e(1) [OF d(1)] e(2) [OF d(2)] e(4) [OF o]
          del: EqualFold.simps)
  next
    case n
    show ?thesis
    proof (cases "EqualFold ''name'' key")
      case True
      show ?thesis
        by (simp add: config_fields_def n True e(1) [OF n(1)] e(2) [OF n(2)] e(3) [OF n(3)]
            del: EqualFold.simps)
    next
      case False
      show ?thesis
        by (simp add: config_fields_def n False e(1) [OF n(1)] e(2) [OF n(2)] e(3) [OF n(3)]
            e(4) [OF False] del: EqualFold.simps)
    qed
  qed
qed

lemma unifyStruct_append:
  "unifyStruct (tmap @ [(key, datum)]) cfg =
     (case find_field config_fields key None of
        None \<Rightarrow> unifyStruct tmap cfg
      | Some f \<Rightarrow> set_field f datum (unifyStruct tmap cfg))"
  by (induction tmap cfg rule: unifyStruct.induct) (simp_all split: option.split)

lemma unifyStruct_value:
  "Server (unifyStruct doc cfg) =
     (case document_value doc ''server'' of None \<Rightarrow> Server cfg | Some v \<Rightarrow> v)"
  "RemoteKey (unifyStruct doc cfg) =
     (case document_value doc ''remote-key'' of None \<Rightarrow> RemoteKey cfg | Some v \<Rightarrow> v)"
  "DataDir (unifyStruct doc cfg) =
     (case document_value doc ''data-dir'' of None \<Rightarrow> DataDir cfg | Some v \<Rightarrow> v)"
  "Name (unifyStruct doc cfg) =
     (case document_value doc ''name'' of None \<Rightarrow> Name cfg | Some v \<Rightarrow> v)"
proof (induction doc rule: rev_induct)
  case Nil
  {
    case 1 show ?case by (simp add: document_value_def)
  next
    case 2 show ?case by (simp add: document_value_def)
  next
    case 3 show ?case by (simp add: document_value_def)
  next
    case 4 show ?case by (simp add: document_value_def)
  }
next
  case (snoc kv doc)
  obtain key datum where kv: "kv = (key, datum)" by (cases kv)
  note s = EqualFold_tags_disjoint(1) [of key]
  note r = EqualFold_tags_disjoint(2) [of key]
  note d = EqualFold_tags_disjoint(3) [of key]
  {
    case 1
    from snoc.IH(1) s r d show ?case
      by (auto simp add: kv unifyStruct_append find_field_config document_value_def
          simp del: EqualFold.simps)
  next
    case 2
    from snoc.IH(2) s r d show ?case
      by (auto simp add: kv unifyStruct_append find_field_config document_value_def
          simp del: EqualFold.simps)
  next
    case 3
    from snoc.IH(3) s r d show ?case
      by (auto simp add: kv unifyStruct_append find_field_config document_value_def
          simp del: EqualFold.simps)
  next
    case 4
    from snoc.IH(4) s r d show ?case
      by (auto simp add: kv unifyStruct_append find_field_config document_value_def
          simp del: EqualFold.simps)
  }
qed

lemma flag_Parse_value:
  "flag_Parse c0 args = Some c \<Longrightarrow>
   c n = (case map_of (rev args) n of None \<Rightarrow> c0 n | Some v \<Rightarrow> Some v)"
proof (induction args arbitrary: c0)
  case Nil
  then show ?case by simp
next
  case (Cons a args)
  obtain name v where a: "a = (name, v)" by (cases a)
  from Cons.prems a obtain w where w: "c0 name = Some w"
    and rest: "flag_Parse (c0(name \<mapsto> v)) args = Some c"
    by (auto split: option.splits)
  from Cons.IH [OF rest] show ?case
    by (auto simp: a map_add_def split: option.splits)
qed

lemma flag_Parse_declared:
  "flag_Parse c0 args = Some c \<Longrightarrow> c0 n \<noteq> None \<Longrightarrow> c n \<noteq> None"
  by (induction c0 args rule: flag_Parse.induct) (auto split: option.splits)

lemma copy_frame:
  "n \<notin> set parts \<or> n \<in> set visited \<Longrightarrow>
   fold (\<lambda>name c'. if name \<in> set visited then c'
                    else Context_Set c' name (Context_String c' ff)) parts c n = c n"
  by (induction parts arbitrary: c) (auto simp: Context_Set_def split: option.splits)

lemma Context_Set_declared:
  "c n \<noteq> None \<Longrightarrow> Context_Set c m v n \<noteq> None"
  by (simp add: Context_Set_def split: option.splits)

lemma copy_declared:
  "c n \<noteq> None \<Longrightarrow>
   fold (\<lambda>name c'. if name \<in> set visited then c'
                    else Context_Set c' name (Context_String c' ff)) parts c n \<noteq> None"
proof (induction parts arbitrary: c)
  case Nil
  then show ?case by simp
next
  case (Cons a parts)
  have "(if a \<in> set visited then c else Context_Set c a (Context_String c ff)) n \<noteq> None"
  proof (cases "a \<in> set visited")
    case True
    with Cons.prems show ?thesis by simp
  next
    case False
    with Context_Set_declared [where c = c and n = n, OF Cons.prems] show ?thesis by simp
  qed
  from Cons.IH
    [where c = "if a \<in> set visited then c else Context_Set c a (Context_String c ff)", OF this]
  show ?case by simp
qed

lemma normalizeFlag_frame:
  "normalizeFlag parts visited c = Some c' \<Longrightarrow> n \<notin> set parts \<or> n \<in> set visited \<Longrightarrow>
   c' n = c n"
  by (auto simp: normalizeFlag_def copy_frame split: if_splits list.splits)

lemma normalizeFlag_declared:
  assumes "normalizeFlag parts visited c = Some c'" and "c n \<noteq> None"
  shows "c' n \<noteq> None"
proof -
  from assms(1) have "c' = c \<or>
      (\<exists>ff. c' = fold (\<lambda>name c'. if name \<in> set visited then c'
                    else Context_Set c' name (Context_String c' ff)) parts c)"
    by (auto simp: normalizeFlag_def split: if_splits list.splits)
  then show ?thesis
  proof (elim disjE exE)
    assume "c' = c"
    with assms(2) show ?thesis by simp
  next
    fix ff
    assume "c' = fold (\<lambda>name c'. if name \<in> set visited then c'
                    else Context_Set c' name (Context_String c' ff)) parts c"
    with copy_declared [where c = c and n = n and visited = visited and ff = ff and parts = parts,
        OF assms(2)] show ?thesis by simp
  qed
qed

lemma normalizeFlags_frame:
  "normalizeFlags flags visited c = Some c' \<Longrightarrow>
   n \<notin> set (concat (map fst flags)) \<or> n \<in> set visited \<Longrightarrow> c' n = c n"
proof (induction flags visited c rule: normalizeFlags.induct)
  case (1 visited c)
  then show ?case by simp
next
  case (2 parts v flags visited c)
  from "2.prems"(1) obtain c1 where c1: "normalizeFlag parts visited c = Some c1"
    and rest: "normalizeFlags flags visited c1 = Some c'"
    by (auto split: option.splits)
  from "2.prems"(2) have "c1 n = c n"
    by (intro normalizeFlag_frame [OF c1]) auto
  moreover from "2.prems"(2) have "c' n = c1 n"
    by (intro "2.IH" [OF c1 rest]) auto
  ultimately show ?case by simp
qed

lemma normalizeFlags_declared:
  "normalizeFlags flags visited c = Some c' \<Longrightarrow> c n \<noteq> None \<Longrightarrow> c' n \<noteq> None"
proof (induction flags visited c rule: normalizeFlags.induct)
  case (1 visited c)
  then show ?case by simp
next
  case (2 parts v flags visited c)
  from "2.prems"(1) obtain c1 where c1: "normalizeFlag parts visited c = Some c1"
    and rest: "normalizeFlags flags visited c1 = Some c'"
    by (auto split: option.splits)
  from normalizeFlag_declared [OF c1 "2.prems"(2)] "2.IH" [OF c1 rest] show ?case by simp
qed

lemma normalizeFlag_data:
  assumes "normalizeFlag [''data'', ''d''] visited c = Some c'" and "c ''data'' \<noteq> None"
  shows "\<not> (''data'' \<in> set visited \<and> ''d'' \<in> set visited)"
    and "c' ''data'' =
      (if ''d'' \<in> set visited then Some (Context_String c ''d'') else c ''data'')"
  using assms
  by (auto simp: normalizeFlag_def Context_Set_def split: if_splits option.splits)

lemma normalizeFlags_New_data:
  assumes "normalizeFlags New_Flags visited c = Some c'" and "c ''data'' \<noteq> None"
  shows "\<not> (''data'' \<in> set visited \<and> ''d'' \<in> set visited)"
    and "c' ''data'' =
      (if ''d'' \<in> set visited then Some (Context_String c ''d'') else c ''data'')"
proof -
  from assms(1) obtain c3 c4 where
    c3: "normalizeFlags [([''config'', ''f''], []), ([''server'', ''s''], []),
           ([''remote-key'', ''k''], [])] visited c = Some c3"
    and c4: "normalizeFlag [''data'', ''d''] visited c3 = Some c4"
    and c5: "normalizeFlags [([''name'', ''n''], [])] visited c4 = Some c'"
    by (auto simp: New_Flags_def split: option.splits)
  have a: "c3 ''data'' = c ''data''" "c3 ''d'' = c ''d''"
    by (rule normalizeFlags_frame [OF c3], simp)+
  have b: "c' ''data'' = c4 ''data''"
    by (rule normalizeFlags_frame [OF c5]) simp
  from assms(2) a have d: "c3 ''data'' \<noteq> None" by simp
  from normalizeFlag_data(1) [OF c4 d]
  show "\<not> (''data'' \<in> set visited \<and> ''d'' \<in> set visited)" .
  from normalizeFlag_data(2) [OF c4 d] a b
  show "c' ''data'' =
      (if ''d'' \<in> set visited then Some (Context_String c ''d'') else c ''data'')"
    by (simp add: Context_String_def)
qed

lemma flagSet_declared:
  "flagSet ''server'' \<noteq> None" "flagSet ''remote-key'' \<noteq> None"
  "flagSet ''data'' \<noteq> None" "flagSet ''name'' \<noteq> None"
  by (simp_all add: flagSet_def New_Flags_def)

lemma parse_flags_declared:
  assumes "parse_flags args = Some c"
  shows "c ''server'' \<noteq> None" "c ''remote-key'' \<noteq> None" "c ''data'' \<noteq> None"
    "c ''name'' \<noteq> None"
proof -
  from assms obtain c0 where c0: "flag_Parse flagSet args = Some c0"
    and n: "normalizeFlags New_Flags (map fst args) c0 = Some c"
    by (auto simp: parse_flags_def split: option.splits)
  note d = flagSet_declared [THEN flag_Parse_declared [OF c0],
      THEN normalizeFlags_declared [OF n]]
  show "c ''server'' \<noteq> None" "c ''remote-key'' \<noteq> None" "c ''data'' \<noteq> None"
    "c ''name'' \<noteq> None"
    by (rule d)+
qed

lemma data_flag_empty:
  assumes "parse_flags args = Some c"
  shows "(Context_String c ''data'' = []) =
         (map_of (rev args) ''data'' = Some [] \<or> map_of (rev args) ''d'' = Some [])"
proof -
  from assms obtain c0 where c0: "flag_Parse flagSet args = Some c0"
    and n: "normalizeFlags New_Flags (map fst args) c0 = Some c"
    by (auto simp: parse_flags_def split: option.splits)
  have v: "n \<in> set (map fst args) \<longleftrightarrow> map_of (rev args) n \<noteq> None" for n
    by (simp add: map_of_eq_None_iff)
  have f: "flagSet ''data'' = Some ''~/.honeytrap-agent''"
    "flagSet ''d'' = Some ''~/.honeytrap-agent''"
    by (simp_all add: flagSet_def New_Flags_def)
  note p = flag_Parse_value [OF c0, of "''data''"] flag_Parse_value [OF c0, of "''d''"]
  from p f have d: "c0 ''data'' \<noteq> None" by (auto split: option.splits)
  from normalizeFlags_New_data [OF n d] p f v [of "''data''"] v [of "''d''"]
  show ?thesis
    by (auto simp: Context_String_def split: option.splits if_splits)
qed

lemma loadConfig_store:
  assumes "c ''server'' \<noteq> None" and "c ''remote-key'' \<noteq> None"
    and "c ''data'' \<noteq> None" and "c ''name'' \<noteq> None"
    and "Context_String c ''config'' \<noteq> []"
    and "os_Open E (Context_String c ''config'') = Inr r" and "toml_document E r = Inr doc"
  shows "loadConfig E c =
           ([Call_os_Open (Context_String c ''config''), Call_DecodeReader, Call_Close], None,
            c(''server'' \<mapsto> (case document_value doc ''server'' of None \<Rightarrow> [] | Some v \<Rightarrow> v),
              ''remote-key'' \<mapsto>
                 (case document_value doc ''remote-key'' of None \<Rightarrow> [] | Some v \<Rightarrow> v),
              ''data'' \<mapsto> (case document_value doc ''data-dir'' of None \<Rightarrow> [] | Some v \<Rightarrow> v),
              ''name'' \<mapsto> (case document_value doc ''name'' of None \<Rightarrow> [] | Some v \<Rightarrow> v)))"
proof -
  have z: "Server config_zero = []" "RemoteKey config_zero = []" "DataDir config_zero = []"
    "Name config_zero = []"
    by (simp_all add: config_zero_def)
  from assms show ?thesis
    by (auto simp: loadConfig_def Let_def Context_Set_def toml_DecodeReader_def
        unifyStruct_value z cong: option.case_cong)
qed

lemma serve_no_data_dir:
  "(snd (serve E c) = Returns (Some (NewExitError (OfError (Errorf
       (RedString ''No data dir set.'' []))) 1))) =
   (Context_GlobalString c ''server'' \<noteq> [] \<and> Context_GlobalString c ''remote-key'' \<noteq> [] \<and>
    Context_GlobalString c ''name'' \<noteq> [] \<and> Context_String c ''data'' = [])"
  by (simp add: serve_def Let_def split: sum.splits option.splits)

lemma app_Run_no_file:
  "Context_String c ''config'' = [] \<Longrightarrow> snd (app_Run E c) = snd (serve E c)"
  by (simp add: app_Run_def loadConfig_def split: prod.splits)

lemma app_Run_file:
  assumes "c ''server'' \<noteq> None" and "c ''remote-key'' \<noteq> None"
    and "c ''data'' \<noteq> None" and "c ''name'' \<noteq> None"
    and "Context_String c ''config'' \<noteq> []"
  shows "(snd (app_Run E c) = Returns (Some (NewExitError (OfError (Errorf
             (RedString ''No data dir set.'' []))) 1))) =
         (\<exists>r doc. os_Open E (Context_String c ''config'') = Inr r \<and> toml_document E r = Inr doc \<and>
            (case document_value doc ''server'' of None \<Rightarrow> [] | Some v \<Rightarrow> v) \<noteq> [] \<and>
            (case document_value doc ''remote-key'' of None \<Rightarrow> [] | Some v \<Rightarrow> v) \<noteq> [] \<and>
            (case document_value doc ''name'' of None \<Rightarrow> [] | Some v \<Rightarrow> v) \<noteq> [] \<and>
            (document_value doc ''data-dir'' = None \<or> document_value doc ''data-dir'' = Some []))"
proof (cases "os_Open E (Context_String c ''config'')")
  case (Inl err)
  with assms(5) show ?thesis
    by (simp add: app_Run_def loadConfig_def)
next
  case (Inr r)
  show ?thesis
  proof (cases "toml_document E r")
    case (Inl err)
    with Inr assms(5) show ?thesis
      by (simp add: app_Run_def loadConfig_def toml_DecodeReader_def)
  next
    case doc: (Inr doc)
    have run: "snd (app_Run E c) =
        snd (serve E
          (c(''server'' \<mapsto> (case document_value doc ''server'' of None \<Rightarrow> [] | Some v \<Rightarrow> v),
             ''remote-key'' \<mapsto>
                (case document_value doc ''remote-key'' of None \<Rightarrow> [] | Some v \<Rightarrow> v),
             ''data'' \<mapsto> (case document_value doc ''data-dir'' of None \<Rightarrow> [] | Some v \<Rightarrow> v),
             ''name'' \<mapsto> (case document_value doc ''name'' of None \<Rightarrow> [] | Some v \<Rightarrow> v))))"
      by (simp add: app_Run_def loadConfig_store [OF assms Inr doc] split: prod.splits)
    have dd: "((case document_value doc ''data-dir'' of None \<Rightarrow> [] | Some v \<Rightarrow> v) = []) =
        (document_value doc ''data-dir'' = None \<or> document_value doc ''data-dir'' = Some [])"
      by (simp split: option.splits)
    have "(snd (app_Run E c) = Returns (Some (NewExitError (OfError (Errorf
             (RedString ''No data dir set.'' []))) 1))) =
          ((case document_value doc ''server'' of None \<Rightarrow> [] | Some v \<Rightarrow> v) \<noteq> [] \<and>
           (case document_value doc ''remote-key'' of None \<Rightarrow> [] | Some v \<Rightarrow> v) \<noteq> [] \<and>
           (case document_value doc ''name'' of None \<Rightarrow> [] | Some v \<Rightarrow> v) \<noteq> [] \<and>
           (document_value doc ''data-dir'' = None \<or> document_value doc ''data-dir'' = Some []))"
      by (simp add: run serve_no_data_dir store_defs dd)
    then show ?thesis
      by (simp add: Inr doc)
  qed
qed

lemma step_keeps_invariant:
  assumes "ctx_cancelled p = (listener p = Exited)"
    and "cancel_calls p = (if listener p = Exited then 1 else 0)"
  shows "ctx_cancelled (step ev p) = (listener (step ev p) = Exited) \<and>
         cancel_calls (step ev p) = (if listener (step ev p) = Exited then 1 else 0)"
  using assms
  by (cases ev; cases "listener p"; cases "chan_s p")
     (simp_all add: step_def deliver_def listener_step_def cancel_def)

lemma run_events_keeps_invariant:
  assumes "ctx_cancelled p = (listener p = Exited)"
    and "cancel_calls p = (if listener p = Exited then 1 else 0)"
  shows "ctx_cancelled (run_events evs p) = (listener (run_events evs p) = Exited) \<and>
         cancel_calls (run_events evs p) = (if listener (run_events evs p) = Exited then 1 else 0)"
  using assms
proof (induction evs arbitrary: p)
  case Nil
  then show ?case by simp
next
  case (Cons ev evs)
  from step_keeps_invariant [OF Cons.prems, of ev] Cons.IH [of "step ev p"]
  show ?case by simp
qed

lemma step_after_exit:
  assumes "listener p = Exited"
  shows "listener (step ev p) = Exited \<and> ctx_cancelled (step ev p) = ctx_cancelled p \<and>
         cancel_calls (step ev p) = cancel_calls p"
  using assms by (cases ev) (simp_all add: step_def deliver_def listener_step_def)

lemma run_events_after_exit:
  assumes "listener p = Exited"
  shows "listener (run_events evs p) = Exited \<and>
         ctx_cancelled (run_events evs p) = ctx_cancelled p \<and>
         cancel_calls (run_events evs p) = cancel_calls p"
  using assms
proof (induction evs arbitrary: p)
  case Nil
  then show ?case by simp
next
  case (Cons ev evs)
  from step_after_exit [OF Cons.prems, of ev] Cons.IH [of "step ev p"]
  show ?case by simp
qed

lemma step_keeps_registration:
  assumes "listener p = At_Notify_SIGTERM \<longrightarrow> Interrupt \<in> set (notified p)"
    and "listener p = At_select \<or> listener p = Exited \<longrightarrow>
         Interrupt \<in> set (notified p) \<and> SIGTERM \<in> set (notified p)"
  shows "(listener (step ev p) = At_Notify_SIGTERM \<longrightarrow> Interrupt \<in> set (notified (step ev p))) \<and>
         (listener (step ev p) = At_select \<or> listener (step ev p) = Exited \<longrightarrow>
          Interrupt \<in> set (notified (step ev p)) \<and> SIGTERM \<in> set (notified (step ev p)))"
  using assms
  by (cases ev; cases "listener p"; cases "chan_s p")
     (simp_all add: step_def deliver_def listener_step_def cancel_def)

lemma run_events_keeps_registration:
  assumes "listener p = At_Notify_SIGTERM \<longrightarrow> Interrupt \<in> set (notified p)"
    and "listener p = At_select \<or> listener p = Exited \<longrightarrow>
         Interrupt \<in> set (notified p) \<and> SIGTERM \<in> set (notified p)"
  shows "listener (run_events evs p) = At_select \<or> listener (run_events evs p) = Exited \<longrightarrow>
         Interrupt \<in> set (notified (run_events evs p)) \<and>
         SIGTERM \<in> set (notified (run_events evs p))"
  using assms
proof (induction evs arbitrary: p)
  case Nil
  then show ?case by simp
next
  case (Cons ev evs)
  from step_keeps_registration [OF Cons.prems, of ev]
  have "listener (step ev p) = At_Notify_SIGTERM \<longrightarrow> Interrupt \<in> set (notified (step ev p))"
    and "listener (step ev p) = At_select \<or> listener (step ev p) = Exited \<longrightarrow>
         Interrupt \<in> set (notified (step ev p)) \<and> SIGTERM \<in> set (notified (step ev p))"
    by blast+
  from Cons.IH [OF this] show ?case by simp
qed

subsection \<open>The configuration resolver\<close>

lemma document_value_absent:
  "(document_value doc name = None) = (\<forall>(key, datum) \<in> set doc. \<not> EqualFold name key)"
  by (auto simp: document_value_def find_None_iff)

text \<open>
  C1. When the \<^verbatim>\<open>config\<close> flag is a non-empty path, the file opens and its document
  decodes, \<^verbatim>\<open>loadConfig\<close> succeeds and each of the four entries \<^verbatim>\<open>server\<close>, \<^verbatim>\<open>remote-key\<close>,
  \<^verbatim>\<open>data\<close> and \<^verbatim>\<open>name\<close> of the store holds the value of the file, whatever the flag
  held before: the value that the document gives to the setting when it has it, the empty
  string when the setting is absent from the document. When the \<^verbatim>\<open>config\<close> flag is empty
  the store stays as the flags left it. The four flags are declared in the store, as they
  are in every store that \<^verbatim>\<open>New\<close> and the command line produce (\<open>flagSet_declared\<close>,
  \<open>parse_flags_declared\<close>).
\<close>

theorem loadConfig_file_wins:
  assumes "c ''server'' \<noteq> None" and "c ''remote-key'' \<noteq> None"
    and "c ''data'' \<noteq> None" and "c ''name'' \<noteq> None"
  shows "(Context_String c ''config'' \<noteq> [] \<and>
          os_Open E (Context_String c ''config'') = Inr r \<and> toml_document E r = Inr doc \<longrightarrow>
          (\<exists>t c'. loadConfig E c = (t, None, c') \<and>
             c' = c(''server'' \<mapsto>
                      (case document_value doc ''server'' of None \<Rightarrow> [] | Some v \<Rightarrow> v),
                    ''remote-key'' \<mapsto>
                      (case document_value doc ''remote-key'' of None \<Rightarrow> [] | Some v \<Rightarrow> v),
                    ''data'' \<mapsto>
                      (case document_value doc ''data-dir'' of None \<Rightarrow> [] | Some v \<Rightarrow> v),
                    ''name'' \<mapsto>
                      (case document_value doc ''name'' of None \<Rightarrow> [] | Some v \<Rightarrow> v)) \<and>
             Context_GlobalString c' ''server'' =
               (case document_value doc ''server'' of None \<Rightarrow> [] | Some v \<Rightarrow> v) \<and>
             Context_GlobalString c' ''remote-key'' =
               (case document_value doc ''remote-key'' of None \<Rightarrow> [] | Some v \<Rightarrow> v) \<and>
             Context_String c' ''data'' =
               (case document_value doc ''data-dir'' of None \<Rightarrow> [] | Some v \<Rightarrow> v) \<and>
             Context_GlobalString c' ''name'' =
               (case document_value doc ''name'' of None \<Rightarrow> [] | Some v \<Rightarrow> v)))
       \<and> (Context_String c ''config'' = [] \<longrightarrow> loadConfig E c = ([], None, c))"
proof (intro conjI impI)
  assume a: "Context_String c ''config'' \<noteq> [] \<and>
    os_Open E (Context_String c ''config'') = Inr r \<and> toml_document E r = Inr doc"
  then have "loadConfig E c =
      ([Call_os_Open (Context_String c ''config''), Call_DecodeReader, Call_Close], None,
       c(''server'' \<mapsto> (case document_value doc ''server'' of None \<Rightarrow> [] | Some v \<Rightarrow> v),
         ''remote-key'' \<mapsto>
            (case document_value doc ''remote-key'' of None \<Rightarrow> [] | Some v \<Rightarrow> v),
         ''data'' \<mapsto> (case document_value doc ''data-dir'' of None \<Rightarrow> [] | Some v \<Rightarrow> v),
         ''name'' \<mapsto> (case document_value doc ''name'' of None \<Rightarrow> [] | Some v \<Rightarrow> v)))"
    using assms by (simp add: loadConfig_store)
  then show "\<exists>t c'. loadConfig E c = (t, None, c') \<and>
             c' = c(''server'' \<mapsto>
                      (case document_value doc ''server'' of None \<Rightarrow> [] | Some v \<Rightarrow> v),
                    ''remote-key'' \<mapsto>
                      (case document_value doc ''remote-key'' of None \<Rightarrow> [] | Some v \<Rightarrow> v),
                    ''data'' \<mapsto>
                      (case document_value doc ''data-dir'' of None \<Rightarrow> [] | Some v \<Rightarrow> v),
                    ''name'' \<mapsto>
                      (case document_value doc ''name'' of None \<Rightarrow> [] | Some v \<Rightarrow> v)) \<and>
             Context_GlobalString c' ''server'' =
               (case document_value doc ''server'' of None \<Rightarrow> [] | Some v \<Rightarrow> v) \<and>
             Context_GlobalString c' ''remote-key'' =
               (case document_value doc ''remote-key'' of None \<Rightarrow> [] | Some v \<Rightarrow> v) \<and>
             Context_String c' ''data'' =
               (case document_value doc ''data-dir'' of None \<Rightarrow> [] | Some v \<Rightarrow> v) \<and>
             Context_GlobalString c' ''name'' =
               (case document_value doc ''name'' of None \<Rightarrow> [] | Some v \<Rightarrow> v)"
    by (simp add: Context_String_def Context_GlobalString_def)
next
  assume "Context_String c ''config'' = []"
  then show "loadConfig E c = ([], None, c)"
    by (simp add: loadConfig_def)
qed

theorem loadConfig_file_wins_witness:
  "Context_GlobalString (flagSet(''config'' \<mapsto> ''partial.toml'', ''name'' \<mapsto> ''n'')) ''name'' = ''n''
   \<and> Context_String (flagSet(''config'' \<mapsto> ''partial.toml'', ''name'' \<mapsto> ''n'')) ''data'' =
       ''~/.honeytrap-agent''
   \<and> fst (snd (loadConfig stub_Env (flagSet(''config'' \<mapsto> ''partial.toml'', ''name'' \<mapsto> ''n'')))) = None
   \<and> Context_GlobalString
       (snd (snd (loadConfig stub_Env (flagSet(''config'' \<mapsto> ''partial.toml'', ''name'' \<mapsto> ''n'')))))
       ''server'' = ''a''
   \<and> Context_GlobalString
       (snd (snd (loadConfig stub_Env (flagSet(''config'' \<mapsto> ''partial.toml'', ''name'' \<mapsto> ''n'')))))
       ''name'' = []
   \<and> Context_String
       (snd (snd (loadConfig stub_Env (flagSet(''config'' \<mapsto> ''partial.toml'', ''name'' \<mapsto> ''n'')))))
       ''data'' = []
   \<and> toml_document stub_Env ''capitals'' = Inr [(''Server'', ''x''), (''Data-Dir'', ''w'')]
   \<and> Context_GlobalString
       (snd (snd (loadConfig stub_Env (flagSet(''config'' \<mapsto> ''capitals.toml'', ''server'' \<mapsto> ''s'')))))
       ''server'' = ''x''
   \<and> Context_String
       (snd (snd (loadConfig stub_Env (flagSet(''config'' \<mapsto> ''capitals.toml'', ''server'' \<mapsto> ''s'')))))
       ''data'' = ''w''
   \<and> loadConfig stub_Env flagSet = ([], None, flagSet)"
proof -
  let ?c = "flagSet(''config'' \<mapsto> ''partial.toml'', ''name'' \<mapsto> ''n'')"
  let ?k = "flagSet(''config'' \<mapsto> ''capitals.toml'', ''server'' \<mapsto> ''s'')"
  have d: "?c ''server'' \<noteq> None" "?c ''remote-key'' \<noteq> None" "?c ''data'' \<noteq> None"
    "?c ''name'' \<noteq> None"
    by (simp_all add: flagSet_def New_Flags_def)
  have dk: "?k ''server'' \<noteq> None" "?k ''remote-key'' \<noteq> None" "?k ''data'' \<noteq> None"
    "?k ''name'' \<noteq> None"
    by (simp_all add: flagSet_def New_Flags_def)
  have p: "Context_String ?c ''config'' \<noteq> [] \<and>
      os_Open stub_Env (Context_String ?c ''config'') = Inr ''partial'' \<and>
      toml_document stub_Env ''partial'' = Inr [(''server'', ''a'')]"
    by (simp add: Context_String_def stub_Env_def)
  have pk: "Context_String ?k ''config'' \<noteq> [] \<and>
      os_Open stub_Env (Context_String ?k ''config'') = Inr ''capitals'' \<and>
      toml_document stub_Env ''capitals'' = Inr [(''Server'', ''x''), (''Data-Dir'', ''w'')]"
    by (simp add: Context_String_def stub_Env_def)
  have e: "Context_String flagSet ''config'' = []"
    by (simp add: Context_String_def flagSet_def New_Flags_def)
  have v: "Context_GlobalString ?c ''name'' = ''n''"
    "Context_String ?c ''data'' = ''~/.honeytrap-agent''"
    by (simp_all add: store_defs flagSet_def New_Flags_def)
  from loadConfig_file_wins [OF d, of stub_Env "''partial''" "[(''server'', ''a'')]",
      THEN conjunct1, THEN mp, OF p]
  obtain t c' where l: "loadConfig stub_Env ?c = (t, None, c')"
    and s0: "Context_GlobalString c' ''server'' =
      (case document_value [(''server'', ''a'')] ''server'' of None \<Rightarrow> [] | Some v \<Rightarrow> v)"
    and n0: "Context_GlobalString c' ''name'' =
      (case document_value [(''server'', ''a'')] ''name'' of None \<Rightarrow> [] | Some v \<Rightarrow> v)"
    and a0: "Context_String c' ''data'' =
      (case document_value [(''server'', ''a'')] ''data-dir'' of None \<Rightarrow> [] | Some v \<Rightarrow> v)"
    by blast
  from s0 n0 a0 have s: "Context_GlobalString c' ''server'' = ''a''"
    and n: "Context_GlobalString c' ''name'' = []"
    and a: "Context_String c' ''data'' = []"
    by (simp_all add: document_value_def ascii_case_pair_def)
  from loadConfig_file_wins
    [OF dk, of stub_Env "''capitals''" "[(''Server'', ''x''), (''Data-Dir'', ''w'')]",
      THEN conjunct1, THEN mp, OF pk]
  obtain tk ck where lk: "loadConfig stub_Env ?k = (tk, None, ck)"
    and sk0: "Context_GlobalString ck ''server'' =
      (case document_value [(''Server'', ''x''), (''Data-Dir'', ''w'')] ''server'' of
         None \<Rightarrow> [] | Some v \<Rightarrow> v)"
    and ak0: "Context_String ck ''data'' =
      (case document_value [(''Server'', ''x''), (''Data-Dir'', ''w'')] ''data-dir'' of
         None \<Rightarrow> [] | Some v \<Rightarrow> v)"
    by blast
  from sk0 ak0 have sk: "Context_GlobalString ck ''server'' = ''x''"
    and ak: "Context_String ck ''data'' = ''w''"
    by (simp_all add: document_value_def ascii_case_pair_def)
  from loadConfig_file_wins [OF flagSet_declared, of stub_Env, THEN conjunct2, THEN mp, OF e]
  have "loadConfig stub_Env flagSet = ([], None, flagSet)" .
  with l s n a v lk sk ak pk show ?thesis by simp
qed

text \<open>
  C7. With an empty \<^verbatim>\<open>config\<close> flag \<^verbatim>\<open>loadConfig\<close> returns \<^verbatim>\<open>nil\<close>, calls none of its
  collaborators (no file is opened) and leaves the store as it is.
\<close>

theorem loadConfig_empty_path:
  "Context_String c ''config'' = [] \<Longrightarrow> loadConfig E c = ([], None, c)"
  by (simp add: loadConfig_def)

theorem loadConfig_empty_path_witness:
  "Context_String (flagSet(''server'' \<mapsto> ''s'')) ''config'' = [] \<and>
   loadConfig stub_Env (flagSet(''server'' \<mapsto> ''s'')) = ([], None, flagSet(''server'' \<mapsto> ''s''))"
proof -
  have h: "Context_String (flagSet(''server'' \<mapsto> ''s'')) ''config'' = []"
    by (simp add: Context_String_def flagSet_def New_Flags_def)
  from loadConfig_empty_path [OF h, of stub_Env] h show ?thesis by simp
qed

text \<open>
  C4. With a non-empty \<^verbatim>\<open>config\<close> path: when the file does not open, \<^verbatim>\<open>loadConfig\<close>
  returns the exit error made of \<^verbatim>\<open>Could not open config file: %s\<close> with the text of
  the I/O error, with exit code 1; when the file opens and its contents do not decode, it
  returns the exit error made of \<^verbatim>\<open>Could not parse config file: %s\<close> with the text of the
  decoder's error, with exit code 1. In both cases the application stops with that error
  and status 1 after these calls only: \<^verbatim>\<open>serve\<close> does not run and \<^verbatim>\<open>server.New\<close> is not
  called.
\<close>

theorem loadConfig_open_or_parse_failure:
  assumes "Context_String c ''config'' = s" and "s \<noteq> []"
  shows "(os_Open E s = Inl err \<longrightarrow>
            loadConfig E c =
              ([Call_os_Open s],
               Some (NewExitError (OfError (Errorf
                 (RedString ''Could not open config file: %s'' [err]))) 1), c) \<and>
            app_Run E c =
              ([Call_os_Open s],
               Returns (Some (NewExitError (OfError (Errorf
                 (RedString ''Could not open config file: %s'' [err]))) 1))) \<and>
            exit_status (snd (app_Run E c)) = Some 1 \<and>
            (\<forall>options. Call_server_New options \<notin> set (fst (app_Run E c))))
       \<and> (os_Open E s = Inr r \<and> toml_document E r = Inl err \<longrightarrow>
            loadConfig E c =
              ([Call_os_Open s, Call_DecodeReader, Call_Close],
               Some (NewExitError (OfError (Errorf
                 (RedString ''Could not parse config file: %s'' [err]))) 1), c) \<and>
            app_Run E c =
              ([Call_os_Open s, Call_DecodeReader, Call_Close],
               Returns (Some (NewExitError (OfError (Errorf
                 (RedString ''Could not parse config file: %s'' [err]))) 1))) \<and>
            exit_status (snd (app_Run E c)) = Some 1 \<and>
            (\<forall>options. Call_server_New options \<notin> set (fst (app_Run E c))))"
  using assms
  by (simp add: loadConfig_def app_Run_def toml_DecodeReader_def exit_status_def)

theorem loadConfig_open_or_parse_failure_witness:
  "app_Run stub_Env (flagSet(''config'' \<mapsto> ''missing.toml'', ''server'' \<mapsto> ''s'')) =
     ([Call_os_Open ''missing.toml''],
      Returns (Some (NewExitError (OfError (Errorf
        (RedString ''Could not open config file: %s'' [''no such file or directory'']))) 1)))
   \<and> app_Run stub_Env (flagSet(''config'' \<mapsto> ''broken.toml'', ''server'' \<mapsto> ''s'')) =
     ([Call_os_Open ''broken.toml'', Call_DecodeReader, Call_Close],
      Returns (Some (NewExitError (OfError (Errorf
        (RedString ''Could not parse config file: %s'' [''expected key separator'']))) 1)))"
proof -
  have m: "Context_String (flagSet(''config'' \<mapsto> ''missing.toml'', ''server'' \<mapsto> ''s'')) ''config'' =
      ''missing.toml''"
    and b: "Context_String (flagSet(''config'' \<mapsto> ''broken.toml'', ''server'' \<mapsto> ''s'')) ''config'' =
      ''broken.toml''"
    by (simp_all add: Context_String_def)
  have n: "''missing.toml'' \<noteq> []" "''broken.toml'' \<noteq> []" by simp_all
  have o: "os_Open stub_Env ''missing.toml'' = Inl ''no such file or directory''"
    "os_Open stub_Env ''broken.toml'' = Inr ''broken'' \<and>
     toml_document stub_Env ''broken'' = Inl ''expected key separator''"
    by (simp_all add: stub_Env_def)
  from loadConfig_open_or_parse_failure [OF m n(1), of stub_Env "''no such file or directory''"]
    loadConfig_open_or_parse_failure [OF b n(2), of stub_Env "''expected key separator''"
      "''broken''"] o
  show ?thesis by simp
qed

text \<open>
  C5. When \<^verbatim>\<open>loadConfig\<close> returns an error (the file did not open, or did not decode),
  the store it returns is the store it was given: no entry was set.
\<close>

theorem loadConfig_failure_keeps_store:
  "loadConfig E c = (t, Some e, c') \<Longrightarrow> c' = c"
  by (auto simp: loadConfig_def Let_def split: if_splits sum.splits)

theorem loadConfig_failure_keeps_store_witness:
  "fst (snd (loadConfig stub_Env (flagSet(''config'' \<mapsto> ''broken.toml'', ''server'' \<mapsto> ''s'')))) =
     Some (NewExitError (OfError (Errorf
       (RedString ''Could not parse config file: %s'' [''expected key separator'']))) 1)
   \<and> snd (snd (loadConfig stub_Env (flagSet(''config'' \<mapsto> ''broken.toml'', ''server'' \<mapsto> ''s'')))) =
     flagSet(''config'' \<mapsto> ''broken.toml'', ''server'' \<mapsto> ''s'')"
proof -
  let ?c = "flagSet(''config'' \<mapsto> ''broken.toml'', ''server'' \<mapsto> ''s'')"
  let ?e = "NewExitError (OfError (Errorf
       (RedString ''Could not parse config file: %s'' [''expected key separator'']))) 1"
  have f: "fst (snd (loadConfig stub_Env ?c)) = Some ?e"
    by (simp add: loadConfig_def Let_def Context_String_def stub_Env_def toml_DecodeReader_def)
  then have "loadConfig stub_Env ?c =
      (fst (loadConfig stub_Env ?c), Some ?e, snd (snd (loadConfig stub_Env ?c)))"
    by (metis prod.collapse)
  from loadConfig_failure_keeps_store [OF this] f show ?thesis by simp
qed

subsection \<open>Validation and the options of \<^verbatim>\<open>serve\<close>\<close>

text \<open>
  C2. \<^verbatim>\<open>serve\<close> checks the server address, the remote key, the name and the data directory
  in this order. At the first of them that is the empty string it returns the exit error
  with code 1 whose message names that setting (\<^verbatim>\<open>No target server set.\<close>,
  \<^verbatim>\<open>No remote key set.\<close>, \<^verbatim>\<open>No name set.\<close>, \<^verbatim>\<open>No data dir set.\<close>), having built the options
  of the settings before it only. So whenever one of the four is empty, the status is 1
  and \<^verbatim>\<open>server.New\<close> is not called.
\<close>

theorem serve_missing_option:
  "(Context_GlobalString c ''server'' = [] \<longrightarrow>
      serve E c = ([], Returns (Some (NewExitError (OfError (Errorf
                    (RedString ''No target server set.'' []))) 1))))
   \<and> (Context_GlobalString c ''server'' \<noteq> [] \<and> Context_GlobalString c ''remote-key'' = [] \<longrightarrow>
      serve E c = ([Call_WithServer (Context_GlobalString c ''server'')],
                   Returns (Some (NewExitError (OfError (Errorf
                    (RedString ''No remote key set.'' []))) 1))))
   \<and> (Context_GlobalString c ''server'' \<noteq> [] \<and> Context_GlobalString c ''remote-key'' \<noteq> [] \<and>
      Context_GlobalString c ''name'' = [] \<longrightarrow>
      serve E c = ([Call_WithServer (Context_GlobalString c ''server''),
                    Call_WithKey (Context_GlobalString c ''remote-key'')],
                   Returns (Some (NewExitError (OfError (Errorf
                    (RedString ''No name set.'' []))) 1))))
   \<and> (Context_GlobalString c ''server'' \<noteq> [] \<and> Context_GlobalString c ''remote-key'' \<noteq> [] \<and>
      Context_GlobalString c ''name'' \<noteq> [] \<and> Context_String c ''data'' = [] \<longrightarrow>
      serve E c = ([Call_WithServer (Context_GlobalString c ''server''),
                    Call_WithKey (Context_GlobalString c ''remote-key''),
                    Call_WithName (Context_GlobalString c ''name'')],
                   Returns (Some (NewExitError (OfError (Errorf
                    (RedString ''No data dir set.'' []))) 1))))
   \<and> (Context_GlobalString c ''server'' = [] \<or> Context_GlobalString c ''remote-key'' = [] \<or>
      Context_GlobalString c ''name'' = [] \<or> Context_String c ''data'' = [] \<longrightarrow>
      exit_status (snd (serve E c)) = Some 1 \<and>
      (\<forall>options. Call_server_New options \<notin> set (fst (serve E c))))"
  by (simp add: serve_def Let_def exit_status_def)

theorem serve_missing_option_witness:
  "serve stub_Env flagSet =
     ([], Returns (Some (NewExitError (OfError (Errorf
            (RedString ''No target server set.'' []))) 1)))
   \<and> serve stub_Env (flagSet(''server'' \<mapsto> ''s'')) =
     ([Call_WithServer ''s''],
      Returns (Some (NewExitError (OfError (Errorf (RedString ''No remote key set.'' []))) 1)))
   \<and> serve stub_Env (flagSet(''server'' \<mapsto> ''s'', ''remote-key'' \<mapsto> ''k'')) =
     ([Call_WithServer ''s'', Call_WithKey ''k''],
      Returns (Some (NewExitError (OfError (Errorf (RedString ''No name set.'' []))) 1)))
   \<and> serve stub_Env
       (flagSet(''server'' \<mapsto> ''s'', ''remote-key'' \<mapsto> ''k'', ''name'' \<mapsto> ''n'', ''data'' \<mapsto> [])) =
     ([Call_WithServer ''s'', Call_WithKey ''k'', Call_WithName ''n''],
      Returns (Some (NewExitError (OfError (Errorf (RedString ''No data dir set.'' []))) 1)))"
  using serve_missing_option [where c = flagSet and E = stub_Env]
    serve_missing_option [where c = "flagSet(''server'' \<mapsto> ''s'')" and E = stub_Env]
    serve_missing_option
      [where c = "flagSet(''server'' \<mapsto> ''s'', ''remote-key'' \<mapsto> ''k'')" and E = stub_Env]
    serve_missing_option
      [where c = "flagSet(''server'' \<mapsto> ''s'', ''remote-key'' \<mapsto> ''k'', ''name'' \<mapsto> ''n'',
                          ''data'' \<mapsto> [])" and E = stub_Env]
  by (simp add: Context_GlobalString_def Context_String_def flagSet_def New_Flags_def)

text \<open>
  C3. When the four settings are non-empty and \<^verbatim>\<open>server.WithDataDir\<close> accepts the data
  directory, \<^verbatim>\<open>serve\<close> calls \<^verbatim>\<open>server.New\<close> once, with exactly five options in the order
  server, remote key, name, data directory, token; the token option is appended last.
\<close>

theorem serve_option_order:
  assumes "Context_GlobalString c ''server'' = v" and "v \<noteq> []"
    and "Context_GlobalString c ''remote-key'' = key" and "key \<noteq> []"
    and "Context_GlobalString c ''name'' = name" and "name \<noteq> []"
    and "Context_String c ''data'' = d" and "d \<noteq> []"
    and "server_WithDataDir E d = Inr fn"
  shows "\<exists>rest. fst (serve E c) =
           [Call_WithServer v, Call_WithKey key, Call_WithName name, Call_WithDataDir d,
            Call_WithToken,
            Call_server_New [server_WithServer E v, server_WithKey E key, server_WithName E name,
                             fn, server_WithToken E]] @ rest
         \<and> (\<forall>options. Call_server_New options \<notin> set rest)"
proof (cases "server_New E [server_WithServer E v, server_WithKey E key, server_WithName E name,
    fn, server_WithToken E]")
  case (Inl err)
  with assms show ?thesis by (simp add: serve_def Let_def)
next
  case (Inr srvr)
  with assms show ?thesis by (cases "srvr_Run E srvr") (simp_all add: serve_def Let_def)
qed

theorem serve_option_order_witness:
  "take 6 (fst (serve stub_Env
      (flagSet(''server'' \<mapsto> ''s'', ''remote-key'' \<mapsto> ''k'', ''name'' \<mapsto> ''n'')))) =
     [Call_WithServer ''s'', Call_WithKey ''k'', Call_WithName ''n'',
      Call_WithDataDir ''~/.honeytrap-agent'', Call_WithToken,
      Call_server_New [(''server'', ''s''), (''key'', ''k''), (''name'', ''n''),
                       (''data-dir'', ''~/.honeytrap-agent''), (''token'', [])]]"
proof -
  let ?c = "flagSet(''server'' \<mapsto> ''s'', ''remote-key'' \<mapsto> ''k'', ''name'' \<mapsto> ''n'')"
  have h: "Context_GlobalString ?c ''server'' = ''s''" "''s'' \<noteq> []"
    "Context_GlobalString ?c ''remote-key'' = ''k''" "''k'' \<noteq> []"
    "Context_GlobalString ?c ''name'' = ''n''" "''n'' \<noteq> []"
    "Context_String ?c ''data'' = ''~/.honeytrap-agent''" "''~/.honeytrap-agent'' \<noteq> []"
    "server_WithDataDir stub_Env ''~/.honeytrap-agent'' = Inr (''data-dir'', ''~/.honeytrap-agent'')"
    by (simp_all add: Context_GlobalString_def Context_String_def flagSet_def New_Flags_def
        stub_Env_def)
  from serve_option_order [OF h] obtain rest where
    "fst (serve stub_Env ?c) =
       [Call_WithServer ''s'', Call_WithKey ''k'', Call_WithName ''n'',
        Call_WithDataDir ''~/.honeytrap-agent'', Call_WithToken,
        Call_server_New [server_WithServer stub_Env ''s'', server_WithKey stub_Env ''k'',
          server_WithName stub_Env ''n'', (''data-dir'', ''~/.honeytrap-agent''),
          server_WithToken stub_Env]] @ rest"
    by blast
  then show ?thesis by (simp add: stub_Env_def)
qed

text \<open>
  C6. When the data directory is non-empty and \<^verbatim>\<open>server.WithDataDir\<close> fails on it, the
  start-up fails with status 1 and neither \<^verbatim>\<open>server.WithToken\<close> nor \<^verbatim>\<open>server.New\<close> is
  called; where the path is resolved at all, which is when the three checks before it
  pass, the error returned is the exit error with code 1 that carries the text of the
  cause.
\<close>

theorem serve_data_dir_failure:
  assumes "Context_String c ''data'' = d" and "d \<noteq> []"
    and "server_WithDataDir E d = Inl err"
  shows "exit_status (snd (serve E c)) = Some 1
       \<and> Call_WithToken \<notin> set (fst (serve E c))
       \<and> (\<forall>options. Call_server_New options \<notin> set (fst (serve E c)))
       \<and> (Call_WithDataDir d \<in> set (fst (serve E c)) \<longrightarrow>
            snd (serve E c) = Returns (Some (NewExitError (OfString err) 1)))
       \<and> (Context_GlobalString c ''server'' \<noteq> [] \<and> Context_GlobalString c ''remote-key'' \<noteq> [] \<and>
          Context_GlobalString c ''name'' \<noteq> [] \<longrightarrow>
            serve E c =
              ([Call_WithServer (Context_GlobalString c ''server''),
                Call_WithKey (Context_GlobalString c ''remote-key''),
                Call_WithName (Context_GlobalString c ''name''),
                Call_WithDataDir d],
               Returns (Some (NewExitError (OfString err) 1))))"
  using assms by (simp add: serve_def Let_def exit_status_def)

theorem serve_data_dir_failure_witness:
  "serve stub_Env
     (flagSet(''server'' \<mapsto> ''s'', ''remote-key'' \<mapsto> ''k'', ''name'' \<mapsto> ''n'',
              ''data'' \<mapsto> ''/proc/agent'')) =
     ([Call_WithServer ''s'', Call_WithKey ''k'', Call_WithName ''n'',
       Call_WithDataDir ''/proc/agent''],
      Returns (Some (NewExitError (OfString ''permission denied'') 1)))"
proof -
  let ?c = "flagSet(''server'' \<mapsto> ''s'', ''remote-key'' \<mapsto> ''k'', ''name'' \<mapsto> ''n'',
              ''data'' \<mapsto> ''/proc/agent'')"
  have h: "Context_String ?c ''data'' = ''/proc/agent''" "''/proc/agent'' \<noteq> []"
    "server_WithDataDir stub_Env ''/proc/agent'' = Inl ''permission denied''"
    by (simp_all add: Context_String_def stub_Env_def)
  have g: "Context_GlobalString ?c ''server'' = ''s''"
    "Context_GlobalString ?c ''remote-key'' = ''k''" "Context_GlobalString ?c ''name'' = ''n''"
    by (simp_all add: Context_GlobalString_def)
  from serve_data_dir_failure [OF h] g show ?thesis by simp
qed

subsection \<open>The end of \<^verbatim>\<open>serve\<close>\<close>

text \<open>
  C9. When the settings are valid, the agent is constructed and the blocking call
  \<^verbatim>\<open>srvr.Run(ctx)\<close> returns, whatever error value \<open>r\<close> it produces, \<^verbatim>\<open>serve\<close> returns
  \<^verbatim>\<open>nil\<close> and the process ends with status 0; the call of \<^verbatim>\<open>Run\<close> is the last thing
  \<^verbatim>\<open>serve\<close> does.
\<close>

theorem serve_after_Run_returns:
  assumes "Context_GlobalString c ''server'' = v" and "v \<noteq> []"
    and "Context_GlobalString c ''remote-key'' = key" and "key \<noteq> []"
    and "Context_GlobalString c ''name'' = name" and "name \<noteq> []"
    and "Context_String c ''data'' = d" and "d \<noteq> []"
    and "server_WithDataDir E d = Inr fn"
    and "server_New E [server_WithServer E v, server_WithKey E key, server_WithName E name,
                       fn, server_WithToken E] = Inr srvr"
    and "srvr_Run E srvr = Some r"
  shows "snd (serve E c) = Returns None \<and> exit_status (snd (serve E c)) = Some 0 \<and>
         last (fst (serve E c)) = Call_Run"
  using assms by (simp add: serve_def Let_def exit_status_def)

theorem serve_after_Run_returns_witness:
  "srvr_Run stub_Env
     [(''server'', ''s''), (''key'', ''k''), (''name'', ''n''),
      (''data-dir'', ''~/.honeytrap-agent''), (''token'', [])] = Some (Some ''context canceled'')
   \<and> snd (serve stub_Env
       (flagSet(''server'' \<mapsto> ''s'', ''remote-key'' \<mapsto> ''k'', ''name'' \<mapsto> ''n''))) = Returns None
   \<and> exit_status (snd (serve stub_Env
       (flagSet(''server'' \<mapsto> ''s'', ''remote-key'' \<mapsto> ''k'', ''name'' \<mapsto> ''n'')))) = Some 0"
proof -
  let ?c = "flagSet(''server'' \<mapsto> ''s'', ''remote-key'' \<mapsto> ''k'', ''name'' \<mapsto> ''n'')"
  let ?a = "[(''server'', ''s''), (''key'', ''k''), (''name'', ''n''),
      (''data-dir'', ''~/.honeytrap-agent''), (''token'', [])]"
  have h: "Context_GlobalString ?c ''server'' = ''s''" "''s'' \<noteq> []"
    "Context_GlobalString ?c ''remote-key'' = ''k''" "''k'' \<noteq> []"
    "Context_GlobalString ?c ''name'' = ''n''" "''n'' \<noteq> []"
    "Context_String ?c ''data'' = ''~/.honeytrap-agent''" "''~/.honeytrap-agent'' \<noteq> []"
    "server_WithDataDir stub_Env ''~/.honeytrap-agent'' = Inr (''data-dir'', ''~/.honeytrap-agent'')"
    "server_New stub_Env [server_WithServer stub_Env ''s'', server_WithKey stub_Env ''k'',
       server_WithName stub_Env ''n'', (''data-dir'', ''~/.honeytrap-agent''),
       server_WithToken stub_Env] = Inr ?a"
    "srvr_Run stub_Env ?a = Some (Some ''context canceled'')"
    by (simp_all add: Context_GlobalString_def Context_String_def flagSet_def New_Flags_def
        stub_Env_def)
  from serve_after_Run_returns [OF h] h(11) show ?thesis by blast
qed

subsection \<open>The signal listener\<close>

lemma listener_registers:
  "run_events [Listener_runs, Listener_runs, Listener_runs] process_start =
     \<lparr>listener = At_select, notified = [SIGTERM, Interrupt], chan_s = [],
      ctx_cancelled = False, cancel_calls = 0, alive = True\<rparr>"
  by (simp add: step_def listener_step_def process_start_def)

text \<open>
  C8. In every run of the process from the start of the listener, \<^verbatim>\<open>cancel\<close> is called at
  most once, and the context is cancelled exactly when it was called once, which is
  exactly when the listener has returned; a listener that has reached its \<^verbatim>\<open>select\<close> has
  registered both signals. A listener waiting in its \<^verbatim>\<open>select\<close> that finds
  a signal in the channel, whichever signal it is, calls \<^verbatim>\<open>cancel\<close> once and returns; so
  from a waiting listener, the delivery of a registered signal followed by a step of the
  listener gives one and the same state for both signals. Once the listener has returned,
  no further event (a second signal among them) changes the context or the number of
  calls of \<^verbatim>\<open>cancel\<close>.
\<close>

theorem listener_cancels_exactly_once:
  "(\<forall>evs. cancel_calls (run_events evs process_start) \<le> 1 \<and>
      ctx_cancelled (run_events evs process_start) =
        (cancel_calls (run_events evs process_start) = 1) \<and>
      ctx_cancelled (run_events evs process_start) =
        (listener (run_events evs process_start) = Exited))
   \<and> (\<forall>evs. listener (run_events evs process_start) = At_select \<longrightarrow>
        Interrupt \<in> set (notified (run_events evs process_start)) \<and>
        SIGTERM \<in> set (notified (run_events evs process_start)))
   \<and> (alive p \<and> listener p = At_select \<and> chan_s p = sig # rest \<longrightarrow>
        step Listener_runs p =
          p\<lparr>chan_s := rest, ctx_cancelled := True, cancel_calls := Suc (cancel_calls p),
            listener := Exited\<rparr>)
   \<and> (alive p \<and> listener p = At_select \<and> chan_s p = [] \<and> sig \<in> set (notified p) \<longrightarrow>
        run_events [Deliver sig, Listener_runs] p =
          p\<lparr>ctx_cancelled := True, cancel_calls := Suc (cancel_calls p), listener := Exited\<rparr>)
   \<and> (listener p = Exited \<longrightarrow>
        (\<forall>evs. listener (run_events evs p) = Exited \<and>
           ctx_cancelled (run_events evs p) = ctx_cancelled p \<and>
           cancel_calls (run_events evs p) = cancel_calls p))"
proof (intro conjI allI impI)
  fix evs
  have inv: "ctx_cancelled (run_events evs process_start) =
               (listener (run_events evs process_start) = Exited) \<and>
             cancel_calls (run_events evs process_start) =
               (if listener (run_events evs process_start) = Exited then 1 else 0)"
    by (rule run_events_keeps_invariant) (simp_all add: process_start_def)
  from inv show "cancel_calls (run_events evs process_start) \<le> 1" by simp
  from inv show "ctx_cancelled (run_events evs process_start) =
      (cancel_calls (run_events evs process_start) = 1)" by simp
  from inv show "ctx_cancelled (run_events evs process_start) =
      (listener (run_events evs process_start) = Exited)" by simp
next
  fix evs
  assume "listener (run_events evs process_start) = At_select"
  with run_events_keeps_registration [of process_start evs]
  show "Interrupt \<in> set (notified (run_events evs process_start))"
    and "SIGTERM \<in> set (notified (run_events evs process_start))"
    by (simp_all add: process_start_def)
next
  assume "alive p \<and> listener p = At_select \<and> chan_s p = sig # rest"
  then show "step Listener_runs p =
      p\<lparr>chan_s := rest, ctx_cancelled := True, cancel_calls := Suc (cancel_calls p),
        listener := Exited\<rparr>"
    by (simp add: step_def listener_step_def cancel_def)
next
  assume "alive p \<and> listener p = At_select \<and> chan_s p = [] \<and> sig \<in> set (notified p)"
  then show "run_events [Deliver sig, Listener_runs] p =
      p\<lparr>ctx_cancelled := True, cancel_calls := Suc (cancel_calls p), listener := Exited\<rparr>"
    by (simp add: step_def deliver_def listener_step_def cancel_def)
next
  fix evs
  assume e: "listener p = Exited"
  from run_events_after_exit [OF e, of evs]
  show "listener (run_events evs p) = Exited"
    and "ctx_cancelled (run_events evs p) = ctx_cancelled p"
    and "cancel_calls (run_events evs p) = cancel_calls p" by simp_all
qed

theorem listener_cancels_exactly_once_witness:
  "run_events [Deliver Interrupt, Listener_runs]
     (run_events [Listener_runs, Listener_runs, Listener_runs] process_start) =
   run_events [Deliver SIGTERM, Listener_runs]
     (run_events [Listener_runs, Listener_runs, Listener_runs] process_start)
   \<and> ctx_cancelled (run_events [Deliver Interrupt, Listener_runs]
       (run_events [Listener_runs, Listener_runs, Listener_runs] process_start))
   \<and> cancel_calls (run_events [Deliver Interrupt, Listener_runs]
       (run_events [Listener_runs, Listener_runs, Listener_runs] process_start)) = 1
   \<and> ctx_cancelled (run_events [Deliver SIGTERM, Listener_runs, Deliver Interrupt]
       (run_events [Deliver Interrupt, Listener_runs]
         (run_events [Listener_runs, Listener_runs, Listener_runs] process_start)))
   \<and> cancel_calls (run_events [Deliver SIGTERM, Listener_runs, Deliver Interrupt]
       (run_events [Deliver Interrupt, Listener_runs]
         (run_events [Listener_runs, Listener_runs, Listener_runs] process_start))) = 1"
proof -
  let ?p = "run_events [Listener_runs, Listener_runs, Listener_runs] process_start"
  let ?q = "?p\<lparr>ctx_cancelled := True, cancel_calls := Suc (cancel_calls ?p), listener := Exited\<rparr>"
  have w: "alive ?p \<and> listener ?p = At_select \<and> chan_s ?p = [] \<and> Interrupt \<in> set (notified ?p)"
    "alive ?p \<and> listener ?p = At_select \<and> chan_s ?p = [] \<and> SIGTERM \<in> set (notified ?p)"
    unfolding listener_registers by simp_all
  from listener_cancels_exactly_once [where p = ?p and sig = Interrupt] w(1)
  have i: "run_events [Deliver Interrupt, Listener_runs] ?p = ?q" by blast
  from listener_cancels_exactly_once [where p = ?p and sig = SIGTERM] w(2)
  have t: "run_events [Deliver SIGTERM, Listener_runs] ?p = ?q" by blast
  have c: "ctx_cancelled ?q" "cancel_calls ?q = 1" "listener ?q = Exited"
    unfolding listener_registers by simp_all
  from listener_cancels_exactly_once [where p = ?q] c(3)
  have "ctx_cancelled (run_events [Deliver SIGTERM, Listener_runs, Deliver Interrupt] ?q) =
      ctx_cancelled ?q \<and>
    cancel_calls (run_events [Deliver SIGTERM, Listener_runs, Deliver Interrupt] ?q) =
      cancel_calls ?q"
    by blast
  with c have "ctx_cancelled (run_events [Deliver SIGTERM, Listener_runs, Deliver Interrupt] ?q)"
    "cancel_calls (run_events [Deliver SIGTERM, Listener_runs, Deliver Interrupt] ?q) = 1"
    by simp_all
  with i t c show ?thesis by (simp only: simp_thms)
qed

subsection \<open>The default of the data directory\<close>

text \<open>
  C10 says that the failure \<^verbatim>\<open>No data dir set.\<close> is reachable exactly when the file's
  \<^verbatim>\<open>data-dir\<close> is absent or empty, or the flag is explicitly set empty. Here the command
  line sets the \<^verbatim>\<open>data\<close> flag to the empty string and names a configuration file whose
  \<^verbatim>\<open>data-dir\<close> is \<^verbatim>\<open>d\<close>: the flag is explicitly empty, yet the file's value replaces it
  and the application starts; it does not fail with \<^verbatim>\<open>No data dir set.\<close>
\<close>

theorem empty_data_flag_overwritten_by_file:
  "parse_flags [(''config'', ''agent.toml''), (''data'', [])] =
     Some (flagSet(''config'' \<mapsto> ''agent.toml'', ''data'' \<mapsto> [], ''f'' \<mapsto> ''agent.toml'',
                   ''d'' \<mapsto> []))
   \<and> Context_String
       (flagSet(''config'' \<mapsto> ''agent.toml'', ''data'' \<mapsto> [], ''f'' \<mapsto> ''agent.toml'', ''d'' \<mapsto> []))
       ''data'' = []
   \<and> os_Open stub_Env ''agent.toml'' = Inr ''full''
   \<and> toml_document stub_Env ''full'' =
       Inr [(''server'', ''a''), (''remote-key'', ''b''), (''data-dir'', ''d''), (''name'', ''c'')]
   \<and> snd (app_Run stub_Env
       (flagSet(''config'' \<mapsto> ''agent.toml'', ''data'' \<mapsto> [], ''f'' \<mapsto> ''agent.toml'', ''d'' \<mapsto> []))) =
       Returns None
   \<and> snd (app_Run stub_Env
       (flagSet(''config'' \<mapsto> ''agent.toml'', ''data'' \<mapsto> [], ''f'' \<mapsto> ''agent.toml'', ''d'' \<mapsto> []))) \<noteq>
       Returns (Some (NewExitError (OfError (Errorf (RedString ''No data dir set.'' []))) 1))"
proof -
  let ?c = "flagSet(''config'' \<mapsto> ''agent.toml'', ''data'' \<mapsto> [], ''f'' \<mapsto> ''agent.toml'',
                   ''d'' \<mapsto> [])"
  have p: "parse_flags [(''config'', ''agent.toml''), (''data'', [])] = Some ?c"
    by (simp add: parse_flags_def normalizeFlag_def New_Flags_def flagSet_def store_defs)
  have s: "Context_String ?c ''data'' = []"
    by (simp add: Context_String_def)
  have o: "os_Open stub_Env ''agent.toml'' = Inr ''full''"
    "toml_document stub_Env ''full'' =
       Inr [(''server'', ''a''), (''remote-key'', ''b''), (''data-dir'', ''d''), (''name'', ''c'')]"
    by (simp_all add: stub_Env_def)
  have l: "loadConfig stub_Env ?c =
      ([Call_os_Open ''agent.toml'', Call_DecodeReader, Call_Close], None,
       ?c(''server'' \<mapsto> ''a'', ''remote-key'' \<mapsto> ''b'', ''data'' \<mapsto> ''d'', ''name'' \<mapsto> ''c''))"
    by (simp add: loadConfig_def Let_def store_defs o toml_DecodeReader_def config_zero_def
        config_fields_def flagSet_def New_Flags_def)
  have v: "snd (serve stub_Env
      (?c(''server'' \<mapsto> ''a'', ''remote-key'' \<mapsto> ''b'', ''data'' \<mapsto> ''d'', ''name'' \<mapsto> ''c''))) =
      Returns None"
    by (simp add: serve_def Let_def store_defs stub_Env_def)
  have r: "snd (app_Run stub_Env ?c) = Returns None"
    unfolding app_Run_def l using v by (simp add: split_beta)
  from p s o r show ?thesis by simp
qed

text \<open>
  C10, amended. Without a configuration file the application fails with
  \<^verbatim>\<open>No data dir set.\<close> exactly when the server, the remote key and the name are set and the
  \<^verbatim>\<open>data\<close> entry of the store is empty. With a configuration file, in a store that declares
  the four flags, it fails so exactly when the file opens and decodes, gives a server, a
  remote key and a name, and its \<^verbatim>\<open>data-dir\<close> is absent or empty, whatever the \<^verbatim>\<open>data\<close>
  flag is. In the store that the command line \<open>args\<close> gives, the \<^verbatim>\<open>data\<close> entry is empty
  exactly when the last setting of the flag, under its name \<^verbatim>\<open>data\<close> or \<^verbatim>\<open>d\<close>, is the empty
  string: the default is not empty. So with no configuration file and no setting of the
  flag to the empty string the failure does not occur.
\<close>

theorem no_data_dir_reachability:
  "(Context_String c ''config'' = [] \<longrightarrow>
      (snd (app_Run E c) = Returns (Some (NewExitError (OfError (Errorf
         (RedString ''No data dir set.'' []))) 1))) =
      (Context_GlobalString c ''server'' \<noteq> [] \<and> Context_GlobalString c ''remote-key'' \<noteq> [] \<and>
       Context_GlobalString c ''name'' \<noteq> [] \<and> Context_String c ''data'' = []))
   \<and> (Context_String c ''config'' \<noteq> [] \<and> c ''server'' \<noteq> None \<and> c ''remote-key'' \<noteq> None \<and>
      c ''data'' \<noteq> None \<and> c ''name'' \<noteq> None \<longrightarrow>
      (snd (app_Run E c) = Returns (Some (NewExitError (OfError (Errorf
         (RedString ''No data dir set.'' []))) 1))) =
      (\<exists>r doc. os_Open E (Context_String c ''config'') = Inr r \<and>
         toml_document E r = Inr doc \<and>
         (case document_value doc ''server'' of None \<Rightarrow> [] | Some v \<Rightarrow> v) \<noteq> [] \<and>
         (case document_value doc ''remote-key'' of None \<Rightarrow> [] | Some v \<Rightarrow> v) \<noteq> [] \<and>
         (case document_value doc ''name'' of None \<Rightarrow> [] | Some v \<Rightarrow> v) \<noteq> [] \<and>
         (document_value doc ''data-dir'' = None \<or> document_value doc ''data-dir'' = Some [])))
   \<and> (parse_flags args = Some c \<longrightarrow>
      c ''server'' \<noteq> None \<and> c ''remote-key'' \<noteq> None \<and> c ''data'' \<noteq> None \<and>
      c ''name'' \<noteq> None \<and>
      (Context_String c ''data'' = []) =
        (map_of (rev args) ''data'' = Some [] \<or> map_of (rev args) ''d'' = Some []))
   \<and> (parse_flags args = Some c \<and> Context_String c ''config'' = [] \<and>
      (''data'', []) \<notin> set args \<and> (''d'', []) \<notin> set args \<longrightarrow>
      snd (app_Run E c) \<noteq> Returns (Some (NewExitError (OfError (Errorf
        (RedString ''No data dir set.'' []))) 1)))"
proof (intro conjI impI)
  assume "Context_String c ''config'' = []"
  then show "(snd (app_Run E c) = Returns (Some (NewExitError (OfError (Errorf
         (RedString ''No data dir set.'' []))) 1))) =
      (Context_GlobalString c ''server'' \<noteq> [] \<and> Context_GlobalString c ''remote-key'' \<noteq> [] \<and>
       Context_GlobalString c ''name'' \<noteq> [] \<and> Context_String c ''data'' = [])"
    by (simp add: app_Run_no_file serve_no_data_dir)
next
  assume a: "Context_String c ''config'' \<noteq> [] \<and> c ''server'' \<noteq> None \<and>
    c ''remote-key'' \<noteq> None \<and> c ''data'' \<noteq> None \<and> c ''name'' \<noteq> None"
  then have d: "c ''server'' \<noteq> None" "c ''remote-key'' \<noteq> None" "c ''data'' \<noteq> None"
    "c ''name'' \<noteq> None" "Context_String c ''config'' \<noteq> []"
    by blast+
  show "(snd (app_Run E c) = Returns (Some (NewExitError (OfError (Errorf
         (RedString ''No data dir set.'' []))) 1))) =
      (\<exists>r doc. os_Open E (Context_String c ''config'') = Inr r \<and>
         toml_document E r = Inr doc \<and>
         (case document_value doc ''server'' of None \<Rightarrow> [] | Some v \<Rightarrow> v) \<noteq> [] \<and>
         (case document_value doc ''remote-key'' of None \<Rightarrow> [] | Some v \<Rightarrow> v) \<noteq> [] \<and>
         (case document_value doc ''name'' of None \<Rightarrow> [] | Some v \<Rightarrow> v) \<noteq> [] \<and>
         (document_value doc ''data-dir'' = None \<or> document_value doc ''data-dir'' = Some []))"
    by (rule app_Run_file [OF d])
next
  assume p: "parse_flags args = Some c"
  from parse_flags_declared [OF p]
  show "c ''server'' \<noteq> None" "c ''remote-key'' \<noteq> None" "c ''data'' \<noteq> None"
    "c ''name'' \<noteq> None" .
  from data_flag_empty [OF p]
  show "(Context_String c ''data'' = []) =
        (map_of (rev args) ''data'' = Some [] \<or> map_of (rev args) ''d'' = Some [])" .
next
  assume a: "parse_flags args = Some c \<and> Context_String c ''config'' = [] \<and>
      (''data'', []) \<notin> set args \<and> (''d'', []) \<notin> set args"
  have "map_of (rev args) ''data'' \<noteq> Some []"
  proof
    assume "map_of (rev args) ''data'' = Some []"
    then have "(''data'', []) \<in> set (rev args)" by (rule map_of_SomeD)
    with a show False by simp
  qed
  moreover have "map_of (rev args) ''d'' \<noteq> Some []"
  proof
    assume "map_of (rev args) ''d'' = Some []"
    then have "(''d'', []) \<in> set (rev args)" by (rule map_of_SomeD)
    with a show False by simp
  qed
  moreover from a have "parse_flags args = Some c" by blast
  ultimately have "Context_String c ''data'' \<noteq> []"
    by (simp add: data_flag_empty)
  with a show "snd (app_Run E c) \<noteq> Returns (Some (NewExitError (OfError (Errorf
        (RedString ''No data dir set.'' []))) 1))"
    by (simp add: app_Run_no_file serve_no_data_dir)
qed

theorem no_data_dir_reachability_witness:
  "parse_flags [(''s'', ''h''), (''remote-key'', ''k''), (''name'', ''n'')] =
     Some (flagSet(''s'' \<mapsto> ''h'', ''remote-key'' \<mapsto> ''k'', ''name'' \<mapsto> ''n'', ''server'' \<mapsto> ''h'',
                   ''k'' \<mapsto> ''k'', ''n'' \<mapsto> ''n''))
   \<and> snd (app_Run stub_Env
       (flagSet(''s'' \<mapsto> ''h'', ''remote-key'' \<mapsto> ''k'', ''name'' \<mapsto> ''n'', ''server'' \<mapsto> ''h'',
                ''k'' \<mapsto> ''k'', ''n'' \<mapsto> ''n''))) \<noteq>
     Returns (Some (NewExitError (OfError (Errorf (RedString ''No data dir set.'' []))) 1))
   \<and> parse_flags [(''s'', ''h''), (''remote-key'', ''k''), (''name'', ''n''), (''d'', [])] =
     Some (flagSet(''s'' \<mapsto> ''h'', ''remote-key'' \<mapsto> ''k'', ''name'' \<mapsto> ''n'', ''d'' \<mapsto> [],
                   ''server'' \<mapsto> ''h'', ''k'' \<mapsto> ''k'', ''data'' \<mapsto> [], ''n'' \<mapsto> ''n''))
   \<and> snd (app_Run stub_Env
       (flagSet(''s'' \<mapsto> ''h'', ''remote-key'' \<mapsto> ''k'', ''name'' \<mapsto> ''n'', ''d'' \<mapsto> [],
                ''server'' \<mapsto> ''h'', ''k'' \<mapsto> ''k'', ''data'' \<mapsto> [], ''n'' \<mapsto> ''n''))) =
     Returns (Some (NewExitError (OfError (Errorf (RedString ''No data dir set.'' []))) 1))
   \<and> snd (app_Run stub_Env (flagSet(''config'' \<mapsto> ''nodata.toml''))) =
     Returns (Some (NewExitError (OfError (Errorf (RedString ''No data dir set.'' []))) 1))"
proof -
  let ?a1 = "[(''s'', ''h''), (''remote-key'', ''k''), (''name'', ''n'')]"
  let ?c1 = "flagSet(''s'' \<mapsto> ''h'', ''remote-key'' \<mapsto> ''k'', ''name'' \<mapsto> ''n'', ''server'' \<mapsto> ''h'',
                   ''k'' \<mapsto> ''k'', ''n'' \<mapsto> ''n'')"
  let ?a2 = "[(''s'', ''h''), (''remote-key'', ''k''), (''name'', ''n''), (''d'', [])]"
  let ?c2 = "flagSet(''s'' \<mapsto> ''h'', ''remote-key'' \<mapsto> ''k'', ''name'' \<mapsto> ''n'', ''d'' \<mapsto> [],
                   ''server'' \<mapsto> ''h'', ''k'' \<mapsto> ''k'', ''data'' \<mapsto> [], ''n'' \<mapsto> ''n'')"
  let ?c3 = "flagSet(''config'' \<mapsto> ''nodata.toml'')"
  let ?doc = "[(''server'', ''a''), (''remote-key'', ''b''), (''name'', ''c'')]"
  have p1: "parse_flags ?a1 = Some ?c1" and p2: "parse_flags ?a2 = Some ?c2"
    by (simp_all add: parse_flags_def normalizeFlag_def New_Flags_def flagSet_def store_defs)
  have h1: "parse_flags ?a1 = Some ?c1 \<and> Context_String ?c1 ''config'' = [] \<and>
      (''data'', []) \<notin> set ?a1 \<and> (''d'', []) \<notin> set ?a1"
    using p1 by (simp add: Context_String_def flagSet_def New_Flags_def)
  have "map_of (rev ?a2) ''data'' = Some [] \<or> map_of (rev ?a2) ''d'' = Some []"
    by simp
  with no_data_dir_reachability [of ?c2 stub_Env ?a2] p2
  have e2: "Context_String ?c2 ''data'' = []"
    by blast
  have "Context_String ?c2 ''config'' = []"
    "Context_GlobalString ?c2 ''server'' \<noteq> [] \<and> Context_GlobalString ?c2 ''remote-key'' \<noteq> [] \<and>
     Context_GlobalString ?c2 ''name'' \<noteq> []"
    by (simp_all add: store_defs flagSet_def New_Flags_def)
  with e2 have h2: "Context_String ?c2 ''config'' = []"
    "Context_GlobalString ?c2 ''server'' \<noteq> [] \<and> Context_GlobalString ?c2 ''remote-key'' \<noteq> [] \<and>
     Context_GlobalString ?c2 ''name'' \<noteq> [] \<and> Context_String ?c2 ''data'' = []"
    by blast+
  have h3: "Context_String ?c3 ''config'' \<noteq> [] \<and> ?c3 ''server'' \<noteq> None \<and>
      ?c3 ''remote-key'' \<noteq> None \<and> ?c3 ''data'' \<noteq> None \<and> ?c3 ''name'' \<noteq> None"
    by (simp add: Context_String_def flagSet_def New_Flags_def)
  have "os_Open stub_Env (Context_String ?c3 ''config'') = Inr ''nodata'' \<and>
      toml_document stub_Env ''nodata'' = Inr ?doc \<and>
      (case document_value ?doc ''server'' of None \<Rightarrow> [] | Some v \<Rightarrow> v) \<noteq> [] \<and>
      (case document_value ?doc ''remote-key'' of None \<Rightarrow> [] | Some v \<Rightarrow> v) \<noteq> [] \<and>
      (case document_value ?doc ''name'' of None \<Rightarrow> [] | Some v \<Rightarrow> v) \<noteq> [] \<and>
      (document_value ?doc ''data-dir'' = None \<or> document_value ?doc ''data-dir'' = Some [])"
    by (simp add: Context_String_def stub_Env_def document_value_def ascii_case_pair_def)
  then have e3: "\<exists>r doc. os_Open stub_Env (Context_String ?c3 ''config'') = Inr r \<and>
      toml_document stub_Env r = Inr doc \<and>
      (case document_value doc ''server'' of None \<Rightarrow> [] | Some v \<Rightarrow> v) \<noteq> [] \<and>
      (case document_value doc ''remote-key'' of None \<Rightarrow> [] | Some v \<Rightarrow> v) \<noteq> [] \<and>
      (case document_value doc ''name'' of None \<Rightarrow> [] | Some v \<Rightarrow> v) \<noteq> [] \<and>
      (document_value doc ''data-dir'' = None \<or> document_value doc ''data-dir'' = Some [])"
    by blast
  from no_data_dir_reachability [of ?c1 stub_Env ?a1] h1
  have "snd (app_Run stub_Env ?c1) \<noteq>
     Returns (Some (NewExitError (OfError (Errorf (RedString ''No data dir set.'' []))) 1))"
    by blast
  moreover from no_data_dir_reachability [of ?c2 stub_Env] h2
  have "snd (app_Run stub_Env ?c2) =
     Returns (Some (NewExitError (OfError (Errorf (RedString ''No data dir set.'' []))) 1))"
    by blast
  moreover from no_data_dir_reachability [of ?c3 stub_Env] h3 e3
  have "snd (app_Run stub_Env ?c3) =
     Returns (Some (NewExitError (OfError (Errorf (RedString ''No data dir set.'' []))) 1))"
    by blast
  ultimately show ?thesis using p1 p2 by blast
qed

end
